theory Spec2Isabelle
  imports Main
begin

section \<open>Documents\<close>

text \<open>
  The program works on the tree a HTML parser hands to it.  A child of an element is
  either a string or an element; an element has a name, attributes and children.  A
  string is plain text (\<open>NavigableString\<close>), a comment, or the text of a \<open>script\<close> or
  \<open>style\<close> element or of another element whose text the library keeps apart
  (\<open>RawString\<close>); the last two are strings of classes of their own, which the program
  skips like any string and the library leaves out of an element's text.
  The parser delivers the \<open>class\<close> attribute as a list of tokens and every attribute
  the program reads besides it (\<open>datetime\<close>, \<open>title\<close>, \<open>href\<close>) as one string, so an
  element carries \<open>tag_class\<close> (\<open>None\<close>: no class attribute) and an association list
  of the string-valued attributes.  A character stands for a code point below 256.

  Two elements are compared by name, attributes and contents, which is the equality
  of the parser library's elements (the one \<open>list.index\<close> uses).
\<close>

datatype tag =
  Tag (name: string) (tag_class: "string list option")
      (attrs: "(string \<times> string) list") (contents: "node list")
and node =
    NavigableString string
  | Element tag
  | Comment string
  | RawString string

text \<open>\<open>tag.get(key)\<close> on a string-valued attribute.\<close>

definition get_attr :: "tag \<Rightarrow> string \<Rightarrow> string option" where
  "get_attr t key = map_of (attrs t) key"

text \<open>\<open>tag.get("class", [])\<close>.\<close>

definition get_class :: "tag \<Rightarrow> string list" where
  "get_class t = (case tag_class t of None \<Rightarrow> [] | Some toks \<Rightarrow> toks)"

text \<open>\<open>[c for c in main_div.children if isinstance(c, Tag)]\<close>.\<close>

fun element_children_of :: "node list \<Rightarrow> tag list" where
  "element_children_of [] = []"
| "element_children_of (NavigableString s # cs) = element_children_of cs"
| "element_children_of (Element t # cs) = t # element_children_of cs"
| "element_children_of (Comment s # cs) = element_children_of cs"
| "element_children_of (RawString s # cs) = element_children_of cs"

definition element_children :: "tag \<Rightarrow> tag list" where
  "element_children t = element_children_of (contents t)"

section \<open>Strings\<close>

text \<open>Whitespace as \<open>str.strip()\<close> sees it, for code points below 256.\<close>

definition is_space :: "char \<Rightarrow> bool" where
  "is_space c =
     (let n = (of_char c :: nat)
      in (9 \<le> n \<and> n \<le> 13) \<or> (28 \<le> n \<and> n \<le> 32) \<or> n = 133 \<or> n = 160)"

definition str_strip :: "string \<Rightarrow> string" where
  "str_strip s = rev (dropWhile is_space (rev (dropWhile is_space s)))"

text \<open>\<open>sep.join(parts)\<close>.\<close>

fun str_join :: "string \<Rightarrow> string list \<Rightarrow> string" where
  "str_join sep [] = []"
| "str_join sep [x] = x"
| "str_join sep (x # y # ys) = x @ sep @ str_join sep (y # ys)"

definition blank_line :: string where
  "blank_line = [CHR 0x0A, CHR 0x0A]"

definition starts_with :: "string \<Rightarrow> string \<Rightarrow> bool" where
  "starts_with s p = (take (length p) s = p)"

text \<open>\<open>sub in s\<close>.\<close>

fun str_contains :: "string \<Rightarrow> string \<Rightarrow> bool" where
  "str_contains sub [] = (sub = [])"
| "str_contains sub (c # cs) = (starts_with (c # cs) sub \<or> str_contains sub cs)"

section \<open>Parsing helpers\<close>

definition H2_DIV_CLASS :: string where
  "H2_DIV_CLASS = ''mw-heading mw-heading2''"

definition H3_DIV_CLASS :: string where
  "H3_DIV_CLASS = ''mw-heading mw-heading3''"

subsection \<open>The opening paragraphs\<close>

text \<open>
  The loop of \<open>extract_opening_paragraphs\<close> over \<open>main_div.children\<close>, with its
  variables \<open>parts\<close> and \<open>p_count\<close>; the third component is \<open>stop_node\<close>.  The
  serializer \<open>str(child)\<close> belongs to the parser library and is the parameter
  \<open>render\<close>.  \<open>not child.get("class")\<close> holds when the attribute is absent and when
  its token list is empty.
\<close>

fun opening_loop ::
  "(tag \<Rightarrow> string) \<Rightarrow> node list \<Rightarrow> string list \<Rightarrow> nat \<Rightarrow> string list \<times> nat \<times> tag option"
where
  "opening_loop render [] parts p_count = (parts, p_count, None)"
| "opening_loop render (NavigableString s # rest) parts p_count =
     opening_loop render rest parts p_count"
| "opening_loop render (Element child # rest) parts p_count =
     (if name child = ''div'' \<and> tag_class child \<noteq> None
         \<and> str_join '' '' (get_class child) = H2_DIV_CLASS
      then (parts, p_count, Some child)
      else if name child = ''p'' \<and> (tag_class child = None \<or> tag_class child = Some [])
      then opening_loop render rest (parts @ [render child]) (p_count + 1)
      else opening_loop render rest parts p_count)"
| "opening_loop render (Comment s # rest) parts p_count =
     opening_loop render rest parts p_count"
| "opening_loop render (RawString s # rest) parts p_count =
     opening_loop render rest parts p_count"

definition extract_opening_paragraphs ::
  "(tag \<Rightarrow> string) \<Rightarrow> tag \<Rightarrow> string \<times> nat \<times> tag option"
where
  "extract_opening_paragraphs render main_div =
     (case opening_loop render (contents main_div) [] 0 of
        (parts, p_count, stop_node) \<Rightarrow> (str_join blank_line parts, p_count, stop_node))"

subsection \<open>Headings\<close>

text \<open>
  \<open>get_text(" ", strip=True)\<close>: the plain strings below an element in document
  order, each one stripped, the empty ones dropped, joined by the separator.  The
  program calls it on \<open>div\<close>, \<open>h2\<close>, \<open>h3\<close> and \<open>a\<close> elements, for which the library leaves
  out comments and the text of \<open>script\<close> and \<open>style\<close> elements.
\<close>

fun all_strings :: "tag \<Rightarrow> string list"
  and all_strings_node :: "node \<Rightarrow> string list"
where
  "all_strings (Tag n c a ks) = concat (map all_strings_node ks)"
| "all_strings_node (NavigableString s) = [s]"
| "all_strings_node (Element t) = all_strings t"
| "all_strings_node (Comment s) = []"
| "all_strings_node (RawString s) = []"

definition get_text_strip :: "string \<Rightarrow> tag \<Rightarrow> string" where
  "get_text_strip sep t = str_join sep (filter (\<lambda>s. s \<noteq> []) (map str_strip (all_strings t)))"

text \<open>\<open>get_text()\<close> with no separator and no stripping.\<close>

definition get_text :: "tag \<Rightarrow> string" where
  "get_text t = concat (all_strings t)"

definition heading_text_from_div :: "tag \<Rightarrow> string" where
  "heading_text_from_div d =
     (case find (\<lambda>h. name h = ''h2'' \<or> name h = ''h3'') (element_children d) of
        Some h \<Rightarrow> get_text_strip '' '' h
      | None \<Rightarrow> get_text_strip '' '' d)"

definition is_heading_div :: "tag \<Rightarrow> bool" where
  "is_heading_div t =
     (if name t \<noteq> ''div'' then False
      else let classes = str_join '' '' (get_class t)
           in classes = H2_DIV_CLASS \<or> classes = H3_DIV_CLASS)"

definition level_of_heading_div :: "tag \<Rightarrow> nat option" where
  "level_of_heading_div d =
     (let classes = str_join '' '' (get_class d)
      in if classes = H2_DIV_CLASS then Some 2
         else if classes = H3_DIV_CLASS then Some 3
         else None)"

text \<open>
  \<open>re.match(r"^Race.*$", txt, re.IGNORECASE)\<close>: the text begins with the four
  letters in either case, and what follows holds no line feed, a last character
  apart (\<open>.\<close> does not match a line feed, \<open>$\<close> also matches before a final one).
\<close>

fun race_prefix :: "string \<Rightarrow> bool" where
  "race_prefix (r # a # c # e # rest) =
     ((r = CHR ''R'' \<or> r = CHR ''r'') \<and> (a = CHR ''A'' \<or> a = CHR ''a'')
      \<and> (c = CHR ''C'' \<or> c = CHR ''c'') \<and> (e = CHR ''E'' \<or> e = CHR ''e''))"
| "race_prefix s = False"

definition one_line :: "string \<Rightarrow> bool" where
  "one_line s = (CHR 0x0A \<notin> set s \<or> (last s = CHR 0x0A \<and> CHR 0x0A \<notin> set (butlast s)))"

definition race_re_match :: "string \<Rightarrow> bool" where
  "race_re_match txt = (race_prefix txt \<and> one_line (drop 4 txt))"

subsection \<open>The race section\<close>

text \<open>\<open>children.index(x)\<close>; \<open>None\<close> is the \<open>ValueError\<close>.\<close>

fun index_of :: "tag list \<Rightarrow> tag \<Rightarrow> nat option" where
  "index_of [] x = None"
| "index_of (y # ys) x = (if y = x then Some 0 else map_option Suc (index_of ys x))"

definition start_index :: "tag list \<Rightarrow> tag option \<Rightarrow> nat" where
  "start_index children start_after =
     (case start_after of
        None \<Rightarrow> 0
      | Some s \<Rightarrow> (case index_of children s of Some i \<Rightarrow> i + 1 | None \<Rightarrow> 0))"

text \<open>
  The first loop, over \<open>range(start_idx, len(children))\<close>: it is given the children
  from \<open>i\<close> on and returns \<open>race_heading_idx\<close> and \<open>race_heading_level\<close>.
\<close>

fun find_race_heading :: "tag list \<Rightarrow> nat \<Rightarrow> (nat \<times> nat option) option" where
  "find_race_heading [] i = None"
| "find_race_heading (node # rest) i =
     (if \<not> is_heading_div node then find_race_heading rest (i + 1)
      else if race_re_match (heading_text_from_div node)
      then Some (i, level_of_heading_div node)
      else find_race_heading rest (i + 1))"

text \<open>The second loop, over the children after the race heading.\<close>

fun capture_loop ::
  "(tag \<Rightarrow> string) \<Rightarrow> nat \<Rightarrow> tag list \<Rightarrow> string list \<Rightarrow> nat \<Rightarrow> string list \<times> nat"
where
  "capture_loop render race_heading_level [] parts p_count = (parts, p_count)"
| "capture_loop render race_heading_level (node # rest) parts p_count =
     (if is_heading_div node \<and> level_of_heading_div node = Some race_heading_level
      then (parts, p_count)
      else capture_loop render race_heading_level rest (parts @ [render node])
             (if name node = ''p'' then p_count + 1 else p_count))"

definition extract_race_section_after ::
  "(tag \<Rightarrow> string) \<Rightarrow> tag \<Rightarrow> tag option \<Rightarrow> string \<times> nat"
where
  "extract_race_section_after render main_div start_after =
     (let children = element_children main_div;
          start_idx = start_index children start_after
      in case find_race_heading (drop start_idx children) start_idx of
           None \<Rightarrow> ([], 0)
         | Some (race_heading_idx, None) \<Rightarrow> ([], 0)
         | Some (race_heading_idx, Some race_heading_level) \<Rightarrow>
             (case capture_loop render race_heading_level
                     (drop (race_heading_idx + 1) children) [] 0 of
                (parts, p_count) \<Rightarrow> (str_join blank_line parts, p_count)))"

subsection \<open>The main content region\<close>

text \<open>The elements below an element, in document order.\<close>

fun descendant_tags :: "tag \<Rightarrow> tag list"
  and descendant_tags_node :: "node \<Rightarrow> tag list"
where
  "descendant_tags (Tag n c a ks) = concat (map descendant_tags_node ks)"
| "descendant_tags_node (NavigableString s) = []"
| "descendant_tags_node (Element t) = t # descendant_tags t"
| "descendant_tags_node (Comment s) = []"
| "descendant_tags_node (RawString s) = []"

text \<open>
  \<open>soup.select_one("div.mw-content-ltr.mw-parser-output")\<close>: the first \<open>div\<close> in
  document order whose class tokens include both names.
\<close>

definition find_main_content_div :: "tag \<Rightarrow> tag option" where
  "find_main_content_div soup =
     find (\<lambda>t. name t = ''div'' \<and> ''mw-content-ltr'' \<in> set (get_class t)
                \<and> ''mw-parser-output'' \<in> set (get_class t))
          (descendant_tags soup)"

subsection \<open>Dates\<close>

definition is_digit :: "char \<Rightarrow> bool" where
  "is_digit c = (let n = (of_char c :: nat) in 48 \<le> n \<and> n \<le> 57)"

definition hyphen :: char where
  "hyphen = CHR 0x2D"

text \<open>Ten characters of the shape \<open>dddd-dd-dd\<close>.\<close>

fun iso_shape :: "string \<Rightarrow> bool" where
  "iso_shape [y1, y2, y3, y4, h1, m1, m2, h2, d1, d2] =
     (is_digit y1 \<and> is_digit y2 \<and> is_digit y3 \<and> is_digit y4 \<and> h1 = hyphen
      \<and> is_digit m1 \<and> is_digit m2 \<and> h2 = hyphen \<and> is_digit d1 \<and> is_digit d2)"
| "iso_shape s = False"

text \<open>
  \<open>re.match(r"^\d{4}-\d{2}-\d{2}$", s)\<close>; \<open>$\<close> also matches before a line feed
  that ends the string.
\<close>

definition iso_re_match :: "string \<Rightarrow> bool" where
  "iso_re_match s = (iso_shape s \<or> (s \<noteq> [] \<and> last s = CHR 0x0A \<and> iso_shape (butlast s)))"

text \<open>
  The two loops of \<open>extract_iso_date\<close>.  The library reads an \<open>attrs\<close> argument that
  is not a dictionary as a filter on the class attribute, so
  \<open>find_all(["time", "span"], attrs=True)\<close> yields the \<open>time\<close> and \<open>span\<close> elements
  that carry a class attribute; \<open>find_all(attrs={"title": True})\<close> yields the
  elements that carry a title.
\<close>

fun first_datetime :: "tag list \<Rightarrow> string option" where
  "first_datetime [] = None"
| "first_datetime (t # ts) =
     (case get_attr t ''datetime'' of
        None \<Rightarrow> first_datetime ts
      | Some dt \<Rightarrow> if dt \<noteq> [] \<and> iso_re_match dt then Some dt else first_datetime ts)"

fun first_title :: "tag list \<Rightarrow> string option" where
  "first_title [] = None"
| "first_title (t # ts) =
     (let title = (case get_attr t ''title'' of None \<Rightarrow> [] | Some v \<Rightarrow> v)
      in if iso_re_match title then Some title else first_title ts)"

definition extract_iso_date :: "tag \<Rightarrow> string option" where
  "extract_iso_date soup =
     (case first_datetime
             (filter (\<lambda>t. (name t = ''time'' \<or> name t = ''span'') \<and> tag_class t \<noteq> None)
                     (descendant_tags soup)) of
        Some dt \<Rightarrow> Some dt
      | None \<Rightarrow> first_title (filter (\<lambda>t. get_attr t ''title'' \<noteq> None) (descendant_tags soup)))"

record date =
  dt_year :: nat
  dt_month :: nat
  dt_day :: nat

definition digit_val :: "char \<Rightarrow> nat" where
  "digit_val c = of_char c - 48"

text \<open>\<open>int(s)\<close> on a string of digits.\<close>

definition int_of_digits :: "string \<Rightarrow> nat" where
  "int_of_digits s = foldl (\<lambda>acc c. 10 * acc + digit_val c) 0 s"

definition is_leap :: "nat \<Rightarrow> bool" where
  "is_leap y = (y mod 4 = 0 \<and> (y mod 100 \<noteq> 0 \<or> y mod 400 = 0))"

definition days_in_month :: "nat \<Rightarrow> nat \<Rightarrow> nat" where
  "days_in_month y m =
     (if m = 2 then (if is_leap y then 29 else 28)
      else if m = 4 \<or> m = 6 \<or> m = 9 \<or> m = 11 then 30
      else 31)"

text \<open>
  \<open>datetime.strptime(iso, "%Y-%m-%d")\<close> on the strings that reach it; \<open>None\<close> is its
  \<open>ValueError\<close>.  A string that reaches it has passed \<open>iso_re_match\<close>: with a line
  feed at the end the conversion fails on the unconverted rest, otherwise the year
  has to be at least 1, the month between 1 and 12 and the day one of that month.
  (Spellings the library accepts besides, a one-digit month or day, do not pass
  \<open>iso_re_match\<close>.)
\<close>

definition strptime_ymd :: "string \<Rightarrow> date option" where
  "strptime_ymd s =
     (if \<not> iso_shape s then None
      else let y = int_of_digits (take 4 s);
               m = int_of_digits (take 2 (drop 5 s));
               d = int_of_digits (take 2 (drop 8 s))
           in if 1 \<le> y \<and> 1 \<le> m \<and> m \<le> 12 \<and> 1 \<le> d \<and> d \<le> days_in_month y m
              then Some \<lparr>dt_year = y, dt_month = m, dt_day = d\<rparr>
              else None)"

text \<open>
  What the program's behaviour depends on in the C library behind \<open>strftime\<close>:
  whether it knows \<open>%-d\<close> (the source's comment: ``%-d is unix-y; add Windows
  fallback''), and whether \<open>%Y\<close> pads a year below 1000 with zeros.
\<close>

record platform =
  knows_dash_d :: bool
  pads_year :: bool

definition month_name :: "nat \<Rightarrow> string" where
  "month_name m =
     [''January'', ''February'', ''March'', ''April'', ''May'', ''June'', ''July'',
      ''August'', ''September'', ''October'', ''November'', ''December''] ! (m - 1)"

definition digit_char :: "nat \<Rightarrow> char" where
  "digit_char n = ''0123456789'' ! n"

fun decimal :: "nat \<Rightarrow> string" where
  "decimal n = (if n < 10 then [digit_char n] else decimal (n div 10) @ [digit_char (n mod 10)])"

declare decimal.simps [simp del]

definition zero_pad :: "nat \<Rightarrow> string \<Rightarrow> string" where
  "zero_pad w s = replicate (w - length s) (CHR ''0'') @ s"

definition format_year :: "platform \<Rightarrow> nat \<Rightarrow> string" where
  "format_year pf y = (if pads_year pf then zero_pad 4 (decimal y) else decimal y)"

text \<open>\<open>strftime("%B %-d, %Y")\<close>; \<open>None\<close> is the error of a library without \<open>%-d\<close>.\<close>

definition strftime_dash_d :: "platform \<Rightarrow> date \<Rightarrow> string option" where
  "strftime_dash_d pf d =
     (if knows_dash_d pf
      then Some (month_name (dt_month d) @ '' '' @ decimal (dt_day d) @ '', '' @ format_year pf (dt_year d))
      else None)"

text \<open>\<open>strftime("%B %d, %Y")\<close>.\<close>

definition strftime_d :: "platform \<Rightarrow> date \<Rightarrow> string" where
  "strftime_d pf d =
     month_name (dt_month d) @ '' '' @ zero_pad 2 (decimal (dt_day d)) @ '', '' @ format_year pf (dt_year d)"

text \<open>The nested \<open>try\<close> blocks that compute \<open>pretty_date\<close> from a non-empty \<open>iso\<close>.\<close>

definition pretty_date_of :: "platform \<Rightarrow> string \<Rightarrow> string option" where
  "pretty_date_of pf iso_date =
     (case (case strptime_ymd iso_date of None \<Rightarrow> None | Some d \<Rightarrow> strftime_dash_d pf d) of
        Some s \<Rightarrow> Some s
      | None \<Rightarrow>
          (case strptime_ymd iso_date of None \<Rightarrow> None | Some d \<Rightarrow> Some (strftime_d pf d)))"

section \<open>Main extraction per page\<close>

record page_summary =
  date :: "string option"
  race_summary :: string

text \<open>The argument is the parsed page, \<open>BeautifulSoup(html, "lxml")\<close>.\<close>

definition extract_page_summary :: "platform \<Rightarrow> (tag \<Rightarrow> string) \<Rightarrow> tag \<Rightarrow> page_summary" where
  "extract_page_summary pf render soup =
     (case find_main_content_div soup of
        None \<Rightarrow> \<lparr>date = None, race_summary = []\<rparr>
      | Some main_div \<Rightarrow>
          (case extract_opening_paragraphs render main_div of
             (lead_html, i_count, stop_node) \<Rightarrow>
               (case extract_race_section_after render main_div stop_node of
                  (race_html, j_count) \<Rightarrow>
                    (let combined_parts =
                           (if str_strip lead_html \<noteq> [] then [str_strip lead_html] else [])
                           @ (if str_strip race_html \<noteq> [] then [str_strip race_html] else []);
                         combined_html = str_join blank_line combined_parts;
                         iso_date = extract_iso_date soup;
                         pretty_date =
                           (case iso_date of
                              None \<Rightarrow> None
                            | Some i \<Rightarrow> if i = [] then None else pretty_date_of pf i)
                     in \<lparr>date = pretty_date, race_summary = combined_html\<rparr>))))"

section \<open>Category parsing\<close>

definition YEAR_DIGITS :: "char \<Rightarrow> char \<Rightarrow> bool" where
  "YEAR_DIGITS a b = ((a = CHR ''1'' \<and> b = CHR ''9'') \<or> (a = CHR ''2'' \<and> b = CHR ''0''))"

text \<open>A word character of the regular expressions (\<open>\w\<close>), for code points below 256.\<close>

definition is_word_char :: "char \<Rightarrow> bool" where
  "is_word_char c =
     (let n = (of_char c :: nat)
      in (48 \<le> n \<and> n \<le> 57) \<or> (65 \<le> n \<and> n \<le> 90) \<or> n = 95 \<or> (97 \<le> n \<and> n \<le> 122)
         \<or> n = 170 \<or> n = 178 \<or> n = 179 \<or> n = 181 \<or> n = 185 \<or> n = 186
         \<or> (188 \<le> n \<and> n \<le> 190) \<or> (192 \<le> n \<and> n \<le> 214) \<or> (216 \<le> n \<and> n \<le> 246)
         \<or> 248 \<le> n)"

text \<open>\<open>(19|20)\d{2}\b\<close> at the head of a string.\<close>

fun year_at :: "string \<Rightarrow> bool" where
  "year_at (a # b # c # d # rest) =
     (YEAR_DIGITS a b \<and> is_digit c \<and> is_digit d
      \<and> (case rest of [] \<Rightarrow> True | x # xs \<Rightarrow> \<not> is_word_char x))"
| "year_at s = False"

text \<open>
  \<open>YEAR_RE.search(text)\<close>, the leftmost match of \<open>\b(19|20)\d{2}\b\<close>: the flag says
  whether the character before the string is a word character.
\<close>

fun year_re_search :: "bool \<Rightarrow> string \<Rightarrow> string option" where
  "year_re_search prev_word [] = None"
| "year_re_search prev_word (c # cs) =
     (if \<not> prev_word \<and> year_at (c # cs) then Some (take 4 (c # cs))
      else year_re_search (is_word_char c) cs)"

definition WIKI_BASE :: string where
  "WIKI_BASE = ''https://en.wikipedia.org''"

text \<open>\<open>soup.select("a[href^='/wiki/']")\<close>.\<close>

definition select_wiki_anchors :: "tag \<Rightarrow> tag list" where
  "select_wiki_anchors soup =
     filter (\<lambda>t. name t = ''a'' \<and>
                  (case get_attr t ''href'' of None \<Rightarrow> False | Some h \<Rightarrow> starts_with h ''/wiki/''))
            (descendant_tags soup)"

text \<open>\<open>a.get("href") or ""\<close>.\<close>

definition href_of :: "tag \<Rightarrow> string" where
  "href_of a = (case get_attr a ''href'' of None \<Rightarrow> [] | Some h \<Rightarrow> h)"

text \<open>
  The body of the loop over the anchors up to the \<open>setdefault\<close>: \<open>None\<close> is a
  \<open>continue\<close>, \<open>Some year\<close> an anchor that is stored under \<open>year\<close>.
\<close>

definition anchor_year :: "tag \<Rightarrow> int option" where
  "anchor_year a =
     (let text = str_strip (get_text a);
          href = href_of a
      in if text = [] \<or> href = [] then None
         else case year_re_search False text of
                None \<Rightarrow> None
              | Some m \<Rightarrow>
                  (let year = int (int_of_digits m)
                   in if \<not> str_contains ''Grand Prix'' text \<and> \<not> str_contains ''Grand_Prix'' href
                      then None
                      else if starts_with href ''/wiki/Talk:'' \<or> starts_with href ''/wiki/Category:''
                              \<or> starts_with href ''/wiki/File:'' \<or> starts_with href ''/wiki/Help:''
                      then None
                      else Some year))"

text \<open>
  A dictionary keeps its keys in the order of their first insertion, so it is an
  association list with distinct keys.
\<close>

definition setdefault :: "('k \<times> 'v) list \<Rightarrow> 'k \<Rightarrow> 'v \<Rightarrow> ('k \<times> 'v) list" where
  "setdefault d k v = (if k \<in> set (map fst d) then d else d @ [(k, v)])"

fun dict_set :: "('k \<times> 'v) list \<Rightarrow> 'k \<Rightarrow> 'v \<Rightarrow> ('k \<times> 'v) list" where
  "dict_set [] k v = [(k, v)]"
| "dict_set ((k', v') # d) k v = (if k' = k then (k, v) # d else (k', v') # dict_set d k v)"

fun links_loop :: "tag list \<Rightarrow> (int \<times> string) list \<Rightarrow> (int \<times> string) list" where
  "links_loop [] links = links"
| "links_loop (a # rest) links =
     (case anchor_year a of
        None \<Rightarrow> links_loop rest links
      | Some year \<Rightarrow> links_loop rest (setdefault links year (WIKI_BASE @ href_of a)))"

text \<open>\<open>{k: links[k] for k in sorted(links.keys())}\<close>.\<close>

definition sorted_by_key :: "(int \<times> 'v) list \<Rightarrow> (int \<times> 'v) list" where
  "sorted_by_key links =
     List.map_filter (\<lambda>k. map_option (Pair k) (map_of links k)) (sort (map fst links))"

definition parse_year_links_from_category :: "tag \<Rightarrow> (int \<times> string) list" where
  "parse_year_links_from_category soup = sorted_by_key (links_loop (select_wiki_anchors soup) [])"

section \<open>Orchestration\<close>

text \<open>
  The arguments that decide what is written; the output path, the delay and the
  verbosity do not.
\<close>

record args =
  category_url :: string
  only_year :: "int option"
  exclude_current_year :: bool
  local_html :: "string option"

text \<open>What a run ends with: \<open>sys.exit(code)\<close>, or the dictionary written as JSON.\<close>

datatype outcome = Exit nat | Written "(int \<times> page_summary) list"

text \<open>The loop that builds \<open>filtered\<close>.\<close>

fun year_filter_loop ::
  "int \<Rightarrow> bool \<Rightarrow> (int \<times> string) list \<Rightarrow> (int \<times> string) list \<Rightarrow> (int \<times> string) list"
where
  "year_filter_loop now_year excl [] filtered = filtered"
| "year_filter_loop now_year excl ((y, url) # rest) filtered =
     (if y > now_year then year_filter_loop now_year excl rest filtered
      else if excl \<and> y = now_year then year_filter_loop now_year excl rest filtered
      else year_filter_loop now_year excl rest (dict_set filtered y url))"

text \<open>
  The loop over \<open>years_sorted\<close>.  \<open>fetch\<close> is \<open>fetch_url\<close> followed by the parse of
  the page; \<open>None\<close> is its \<open>requests.HTTPError\<close>.  Every year of the loop is a key
  of \<open>filtered\<close>, so the lookup \<open>filtered[y]\<close> finds a URL.
\<close>

fun pages_loop ::
  "platform \<Rightarrow> (tag \<Rightarrow> string) \<Rightarrow> (string \<Rightarrow> tag option) \<Rightarrow> (int \<times> string) list \<Rightarrow> int list
   \<Rightarrow> (int \<times> page_summary) list \<Rightarrow> (int \<times> page_summary) list"
where
  "pages_loop pf render fetch filtered [] results = results"
| "pages_loop pf render fetch filtered (y # ys) results =
     (case map_of filtered y of
        None \<Rightarrow> pages_loop pf render fetch filtered ys results
      | Some page_url \<Rightarrow>
          (case fetch page_url of
             None \<Rightarrow> pages_loop pf render fetch filtered ys results
           | Some page \<Rightarrow>
               pages_loop pf render fetch filtered ys
                 (dict_set results y (extract_page_summary pf render page))))"

text \<open>
  \<open>main\<close>, given the platform, the serializer, the network (\<open>fetch\<close>), the file
  system (\<open>read_file\<close>, the parse of a local file) and \<open>datetime.now().year\<close>.
\<close>

definition main ::
  "platform \<Rightarrow> (tag \<Rightarrow> string) \<Rightarrow> (string \<Rightarrow> tag option) \<Rightarrow> (string \<Rightarrow> tag) \<Rightarrow> int \<Rightarrow> args
   \<Rightarrow> outcome"
where
  "main pf render fetch read_file now_year a =
     (if local_html a \<noteq> None \<and> local_html a \<noteq> Some []
      then (case only_year a of
              None \<Rightarrow> Exit 2
            | Some y \<Rightarrow>
                Written [(y, extract_page_summary pf render (read_file (the (local_html a))))])
      else (case fetch (category_url a) of
              None \<Rightarrow> Exit 1
            | Some cat \<Rightarrow>
                (let discovered = parse_year_links_from_category cat;
                     year_links = (case only_year a of
                                     None \<Rightarrow> discovered
                                   | Some oy \<Rightarrow> filter (\<lambda>(y, url). y = oy) discovered);
                     filtered = year_filter_loop now_year (exclude_current_year a) year_links [];
                     years_sorted = sort (map fst filtered)
                 in Written (pages_loop pf render fetch filtered years_sorted []))))"

section \<open>A serializer and sample documents\<close>

text \<open>
  A plain serializer to run the definitions on: start tag with the attributes, the
  class first, then the children, then the end tag.  It escapes nothing.
\<close>

definition dquote :: char where
  "dquote = CHR 0x22"

fun str_tag :: "tag \<Rightarrow> string"
  and str_node :: "node \<Rightarrow> string"
where
  "str_tag (Tag n c a ks) =
     ''<'' @ n
     @ (case c of None \<Rightarrow> [] | Some toks \<Rightarrow> '' class='' @ [dquote] @ str_join '' '' toks @ [dquote])
     @ concat (map (\<lambda>(k, v). '' '' @ k @ ''='' @ [dquote] @ v @ [dquote]) a)
     @ ''>'' @ concat (map str_node ks) @ ''</'' @ n @ ''>''"
| "str_node (NavigableString s) = s"
| "str_node (Element t) = str_tag t"
| "str_node (Comment s) = ''<!--'' @ s @ ''-->''"
| "str_node (RawString s) = s"

definition para :: "string \<Rightarrow> tag" where
  "para txt = Tag ''p'' None [] [NavigableString txt]"

definition h2_div :: "string \<Rightarrow> tag" where
  "h2_div title = Tag ''div'' (Some [''mw-heading'', ''mw-heading2'']) []
                    [Element (Tag ''h2'' None [] [NavigableString title])]"

definition h3_div :: "string \<Rightarrow> tag" where
  "h3_div title = Tag ''div'' (Some [''mw-heading'', ''mw-heading3'']) []
                    [Element (Tag ''h3'' None [] [NavigableString title])]"

definition page_of :: "node list \<Rightarrow> tag" where
  "page_of body = Tag ''[document]'' None []
                    [Element (Tag ''html'' None [] [Element (Tag ''body'' None [] body)])]"

text \<open>
  A race page: a lead paragraph, a section before the race, the race section with a
  sub-section, and a section after it.
\<close>

definition sample_main :: tag where
  "sample_main = Tag ''div'' (Some [''mw-content-ltr'', ''mw-parser-output'']) []
     [Element (para ''Lead''), NavigableString '' '', Comment ''infobox'',
      Element (h2_div ''Background''),
      Element (para ''Before''), Element (h2_div ''Race report''), Element (para ''Start''),
      Element (h3_div ''Lap one''), Element (para ''Crash''), Element (h2_div ''Reactions''),
      Element (para ''After'')]"

definition sample_soup :: tag where
  "sample_soup = page_of
     [Element (Tag ''span'' (Some [''dtstart'']) [(''datetime'', ''2015-11-01'')] []),
      Element sample_main]"

text \<open>A page with no race section.\<close>

definition norace_main :: tag where
  "norace_main = Tag ''div'' (Some [''mw-content-ltr'', ''mw-parser-output'']) []
     [Element (para ''Lead''), Element (h2_div ''Background''), Element (para ''Before''),
      Element (h2_div ''Embrace''), Element (para ''After'')]"

definition norace_soup :: tag where
  "norace_soup = page_of [Element norace_main]"

text \<open>A page with a date and no main content region.\<close>

definition bare_soup :: tag where
  "bare_soup = page_of
     [Element (Tag ''span'' (Some [''dtstart'']) [(''datetime'', ''2015-11-01'')] []),
      Element (para ''Lead'')]"

text \<open>A lead with a paragraph whose class attribute is empty.\<close>

definition empty_class_par :: tag where
  "empty_class_par = Tag ''p'' (Some []) [] [NavigableString ''Lead'']"

definition marker_par :: tag where
  "marker_par = Tag ''p'' (Some [''mw-empty-elt'']) [] []"

definition empty_class_main :: tag where
  "empty_class_main = Tag ''div'' (Some [''mw-content-ltr'', ''mw-parser-output'']) []
     [Element marker_par, Element empty_class_par, Element (h2_div ''Race'')]"



text \<open>A page whose only date is the \<open>datetime\<close> of a \<open>time\<close> with no class attribute.\<close>

definition classless_time_soup :: tag where
  "classless_time_soup = page_of [Element (Tag ''time'' None [(''datetime'', ''2015-11-01'')] [])]"


definition unix :: platform where
  "unix = \<lparr>knows_dash_d = True, pads_year = False\<rparr>"

definition windows :: platform where
  "windows = \<lparr>knows_dash_d = False, pads_year = True\<rparr>"

text \<open>A category page: two anchors for 2014, a talk page, and two more years.\<close>

definition anchor :: "string \<Rightarrow> string \<Rightarrow> tag" where
  "anchor href txt = Tag ''a'' None [(''href'', href)] [NavigableString txt]"

definition cat_soup :: tag where
  "cat_soup = page_of
     [Element (anchor ''/wiki/2015_Mexican_Grand_Prix'' ''2015 Mexican Grand Prix''),
      Element (anchor ''/wiki/2014_Mexican_Grand_Prix'' ''2014 Mexican Grand Prix''),
      Element (anchor ''/wiki/2014_Grand_Prix_(Mexico)'' ''2014 Mexican GP''),
      Element (anchor ''/wiki/Talk:2013_Mexican_Grand_Prix'' ''Talk:2013 Mexican Grand Prix''),
      Element (anchor ''/wiki/2016_Mexican_Grand_Prix'' ''2016 Mexican Grand Prix'')]"

text \<open>A network that serves the category page and the sample page for every race.\<close>

definition sample_fetch :: "string \<Rightarrow> tag option" where
  "sample_fetch url = (if url = ''category'' then Some cat_soup else Some sample_soup)"

definition sample_args :: args where
  "sample_args = \<lparr>category_url = ''category'', only_year = None,
                   exclude_current_year = False, local_html = None\<rparr>"

text \<open>A file system whose every file is the sample page.\<close>

definition sample_read_file :: "string \<Rightarrow> tag" where
  "sample_read_file path = sample_soup"

text \<open>The same run restricted to the year 2014.\<close>

definition only_2014_args :: args where
  "only_2014_args = \<lparr>category_url = ''category'', only_year = Some 2014,
                      exclude_current_year = False, local_html = None\<rparr>"

section \<open>Notions of the specification\<close>

text \<open>
  The heading classifier: the level of an element that is a heading boundary,
  \<open>None\<close> for any other element.
\<close>

definition heading_level :: "tag \<Rightarrow> nat option" where
  "heading_level t = (if is_heading_div t then level_of_heading_div t else None)"

text \<open>A paragraph whose class attribute is absent or holds no token.\<close>

definition plain_p :: "tag \<Rightarrow> bool" where
  "plain_p t = (name t = ''p'' \<and> get_class t = [])"

text \<open>A heading the first loop of \<open>extract_race_section_after\<close> stops at.\<close>

definition race_heading :: "tag \<Rightarrow> bool" where
  "race_heading n = (is_heading_div n \<and> race_re_match (heading_text_from_div n))"

text \<open>The element children before the first level-2 heading boundary.\<close>

definition before_first_h2 :: "tag \<Rightarrow> tag list" where
  "before_first_h2 main_div =
     takeWhile (\<lambda>t. heading_level t \<noteq> Some 2) (element_children main_div)"

text \<open>The children up to the first heading boundary of level \<open>L\<close>, that one excluded.\<close>

definition up_to_level :: "nat \<Rightarrow> tag list \<Rightarrow> tag list" where
  "up_to_level L cs = takeWhile (\<lambda>n. heading_level n \<noteq> Some L) cs"

text \<open>An attribute whose value matches the date pattern.\<close>

definition date_attr :: "string \<Rightarrow> tag \<Rightarrow> bool" where
  "date_attr key t = (case get_attr t key of None \<Rightarrow> False | Some v \<Rightarrow> iso_re_match v)"

text \<open>A string that neither is empty nor begins or ends with whitespace.\<close>

definition trimmed :: "string \<Rightarrow> bool" where
  "trimmed s = (s \<noteq> [] \<and> \<not> is_space (hd s) \<and> \<not> is_space (last s))"

text \<open>The years of the written dictionary, in its order.\<close>

fun written_years :: "outcome \<Rightarrow> int list" where
  "written_years (Exit code) = []"
| "written_years (Written results) = map fst results"

text \<open>A year that the loop building \<open>filtered\<close> lets through.\<close>

definition keeps_year :: "int \<Rightarrow> bool \<Rightarrow> int \<Rightarrow> bool" where
  "keeps_year now_year excl y = (y \<le> now_year \<and> \<not> (excl \<and> y = now_year))"

text \<open>A year of \<open>filtered\<close> whose page is fetched.\<close>

definition fetched :: "(string \<Rightarrow> tag option) \<Rightarrow> (int \<times> string) list \<Rightarrow> int \<Rightarrow> bool" where
  "fetched fetch filtered y =
     (case map_of filtered y of None \<Rightarrow> False | Some page_url \<Rightarrow> fetch page_url \<noteq> None)"

section \<open>Properties of the heading classifier\<close>

lemma H2_neq_H3: "H2_DIV_CLASS \<noteq> H3_DIV_CLASS"
  by (simp add: H2_DIV_CLASS_def H3_DIV_CLASS_def)

lemma H2_nonempty: "H2_DIV_CLASS \<noteq> []"
  by (simp add: H2_DIV_CLASS_def)

lemma heading_level_2_iff:
  "heading_level t = Some 2 \<longleftrightarrow> name t = ''div'' \<and> str_join '' '' (get_class t) = H2_DIV_CLASS"
  by (auto simp: heading_level_def is_heading_div_def level_of_heading_div_def Let_def H2_neq_H3)

lemma opening_stop_iff:
  "name t = ''div'' \<and> tag_class t \<noteq> None \<and> str_join '' '' (get_class t) = H2_DIV_CLASS
   \<longleftrightarrow> heading_level t = Some 2"
  using H2_nonempty by (auto simp: heading_level_2_iff get_class_def split: option.splits)

lemma heading_level_cases:
  "heading_level t = None \<or> heading_level t = Some 2 \<or> heading_level t = Some 3"
  by (auto simp: heading_level_def is_heading_div_def level_of_heading_div_def Let_def)

lemma heading_level_eq_iff:
  "is_heading_div t \<and> level_of_heading_div t = Some L \<longleftrightarrow> heading_level t = Some L"
  by (auto simp: heading_level_def)

lemma is_heading_div_level: "is_heading_div t \<Longrightarrow> heading_level t \<noteq> None"
  by (auto simp: heading_level_def is_heading_div_def level_of_heading_div_def Let_def
           split: if_splits)

lemma plain_p_iff:
  "plain_p t \<longleftrightarrow> name t = ''p'' \<and> (tag_class t = None \<or> tag_class t = Some [])"
  by (auto simp: plain_p_def get_class_def split: option.splits)

section \<open>The loop of the opening paragraphs\<close>

lemma opening_loop_char:
  "opening_loop render cs parts k =
     (parts @ map render (filter plain_p
                (takeWhile (\<lambda>t. heading_level t \<noteq> Some 2) (element_children_of cs))),
      k + length (filter plain_p
                (takeWhile (\<lambda>t. heading_level t \<noteq> Some 2) (element_children_of cs))),
      find (\<lambda>t. heading_level t = Some 2) (element_children_of cs))"
proof (induction render cs parts k rule: opening_loop.induct)
  case (1 render parts p_count)
  show ?case by simp
next
  case (2 render s rest parts p_count)
  then show ?case by simp
next
  case (3 render child rest parts p_count)
  show ?case
  proof (cases "heading_level child = Some 2")
    case True
    then show ?thesis using opening_stop_iff [of child] by simp
  next
    case False
    then have ns: "\<not> (name child = ''div'' \<and> tag_class child \<noteq> None
         \<and> str_join '' '' (get_class child) = H2_DIV_CLASS)"
      using opening_stop_iff [of child] by blast
    show ?thesis
    proof (cases "plain_p child")
      case True
      then have pc: "name child = ''p'' \<and> (tag_class child = None \<or> tag_class child = Some [])"
        by (simp add: plain_p_iff)
      have step: "opening_loop render (Element child # rest) parts p_count =
                  opening_loop render rest (parts @ [render child]) (p_count + 1)"
        by (subst opening_loop.simps(3), subst if_not_P [OF ns], subst if_P [OF pc], rule refl)
      show ?thesis unfolding step "3.IH"(1) [OF ns pc] using True False by simp
    next
      case np: False
      then have pc: "\<not> (name child = ''p'' \<and> (tag_class child = None \<or> tag_class child = Some []))"
        by (simp add: plain_p_iff)
      have step: "opening_loop render (Element child # rest) parts p_count =
                  opening_loop render rest parts p_count"
        by (subst opening_loop.simps(3), subst if_not_P [OF ns], subst if_not_P [OF pc], rule refl)
      show ?thesis unfolding step "3.IH"(2) [OF ns pc] using np False by simp
    qed
  qed
next
  case (4 render s rest parts p_count)
  then show ?case by simp
next
  case (5 render s rest parts p_count)
  then show ?case by simp
qed

lemma extract_opening_paragraphs_char:
  "extract_opening_paragraphs render main_div =
     (str_join blank_line (map render (filter plain_p (before_first_h2 main_div))),
      length (filter plain_p (before_first_h2 main_div)),
      find (\<lambda>t. heading_level t = Some 2) (element_children main_div))"
  by (simp add: extract_opening_paragraphs_def opening_loop_char before_first_h2_def
                element_children_def)

lemma element_children_of_append:
  "element_children_of (xs @ ys) = element_children_of xs @ element_children_of ys"
  by (induction xs rule: element_children_of.induct) simp_all

section \<open>The loops of the race section\<close>

lemma capture_loop_char:
  "capture_loop render L cs parts k =
     (parts @ map render (up_to_level L cs),
      k + length (filter (\<lambda>n. name n = ''p'') (up_to_level L cs)))"
proof (induction cs arbitrary: parts k)
  case Nil
  show ?case by (simp add: up_to_level_def)
next
  case (Cons node rest)
  show ?case
  proof (cases "heading_level node = Some L")
    case True
    then have "is_heading_div node \<and> level_of_heading_div node = Some L"
      by (simp add: heading_level_eq_iff)
    then show ?thesis using True by (simp add: up_to_level_def)
  next
    case False
    then have ns: "\<not> (is_heading_div node \<and> level_of_heading_div node = Some L)"
      by (simp add: heading_level_eq_iff)
    have step: "capture_loop render L (node # rest) parts k =
        capture_loop render L rest (parts @ [render node]) (if name node = ''p'' then k + 1 else k)"
      by (subst capture_loop.simps(2), subst if_not_P [OF ns], rule refl)
    show ?thesis unfolding step Cons.IH using False by (simp add: up_to_level_def)
  qed
qed

lemma find_race_heading_none:
  "\<forall>n\<in>set cs. \<not> race_heading n \<Longrightarrow> find_race_heading cs i = None"
  by (induction cs arbitrary: i) (auto simp: race_heading_def)

lemma find_race_heading_some:
  "\<forall>n\<in>set pre. \<not> race_heading n \<Longrightarrow> race_heading h \<Longrightarrow>
   find_race_heading (pre @ h # rest) i = Some (i + length pre, level_of_heading_div h)"
  by (induction pre arbitrary: i) (auto simp: race_heading_def)

lemma drop_split:
  assumes "drop s cs = pre @ h # rest"
  shows "drop (s + length pre + 1) cs = rest"
proof -
  have "drop (length pre + 1) (drop s cs) = rest"
    using assms by simp
  then show ?thesis by (simp add: add.commute add.left_commute)
qed

lemma race_section_char:
  assumes split: "drop (start_index (element_children main_div) start_after)
                    (element_children main_div) = pre @ h # rest"
    and before: "\<forall>n\<in>set pre. \<not> race_heading n"
    and level: "heading_level h = Some L"
    and matches: "race_re_match (heading_text_from_div h)"
  shows "extract_race_section_after render main_div start_after =
      (str_join blank_line (map render (up_to_level L rest)),
       length (filter (\<lambda>n. name n = ''p'') (up_to_level L rest)))"
proof -
  let ?cs = "element_children main_div"
  let ?s = "start_index ?cs start_after"
  have hd: "is_heading_div h \<and> level_of_heading_div h = Some L"
    using level by (simp add: heading_level_eq_iff)
  then have rh: "race_heading h"
    using matches by (simp add: race_heading_def)
  have found: "find_race_heading (drop ?s ?cs) ?s = Some (?s + length pre, Some L)"
    using find_race_heading_some [OF before rh, of rest ?s] split hd by simp
  have rest: "drop (?s + length pre + 1) ?cs = rest"
    using drop_split [OF split] .
  have "extract_race_section_after render main_div start_after =
      (case capture_loop render L rest [] 0 of
         (parts, p_count) \<Rightarrow> (str_join blank_line parts, p_count))"
    unfolding extract_race_section_after_def Let_def found using rest by simp
  then show ?thesis by (simp add: capture_loop_char)
qed

lemma no_race_section:
  assumes "\<forall>n\<in>set (drop (start_index (element_children main_div) start_after)
                          (element_children main_div)). \<not> race_heading n"
  shows "extract_race_section_after render main_div start_after = ([], 0)"
  using find_race_heading_none [OF assms]
  by (simp add: extract_race_section_after_def Let_def)

section \<open>Sample documents\<close>

lemma sample_children:
  "element_children sample_main =
     [para ''Lead'', h2_div ''Background'', para ''Before'', h2_div ''Race report'',
      para ''Start'', h3_div ''Lap one'', para ''Crash'', h2_div ''Reactions'', para ''After'']"
  by (simp add: sample_main_def element_children_def)

lemma heading_level_para [simp]: "heading_level (para x) = None"
  by (simp add: heading_level_def is_heading_div_def para_def)

lemma heading_level_h2_div [simp]: "heading_level (h2_div x) = Some 2"
  by (simp add: heading_level_def is_heading_div_def level_of_heading_div_def h2_div_def
                get_class_def H2_DIV_CLASS_def)

lemma heading_level_h3_div [simp]: "heading_level (h3_div x) = Some 3"
  by (simp add: heading_level_def is_heading_div_def level_of_heading_div_def h3_div_def
                get_class_def H2_DIV_CLASS_def H3_DIV_CLASS_def)

lemma is_heading_div_para [simp]: "\<not> is_heading_div (para x)"
  by (simp add: is_heading_div_def para_def)

lemma name_para [simp]: "name (para x) = ''p''"
  by (simp add: para_def)

lemma name_h2_div [simp]: "name (h2_div x) = ''div''"
  by (simp add: h2_div_def)

lemma name_h3_div [simp]: "name (h3_div x) = ''div''"
  by (simp add: h3_div_def)

lemma plain_p_para [simp]: "plain_p (para x)"
  by (simp add: plain_p_def para_def get_class_def)

lemma plain_p_h2_div [simp]: "\<not> plain_p (h2_div x)"
  by (simp add: plain_p_def)

lemma para_neq_h2 [simp]: "para x \<noteq> h2_div y" "h2_div y \<noteq> para x"
  by (simp_all add: para_def h2_div_def)

lemma h2_div_eq [simp]: "h2_div x = h2_div y \<longleftrightarrow> x = y"
  by (simp add: h2_div_def)

lemma heading_text_h2_div: "heading_text_from_div (h2_div x) = str_strip x"
  by (simp add: heading_text_from_div_def h2_div_def element_children_def get_text_strip_def)

lemma heading_text_skips_comment:
  "heading_text_from_div
     (Tag ''div'' (Some [''mw-heading'', ''mw-heading2'']) []
        [Element (Tag ''h2'' None []
           [Comment ''Embrace'', NavigableString ''Race'', RawString ''track'',
            Element (Tag ''i'' None [] [NavigableString '' day ''])])]) = ''Race day''"
  by (simp add: heading_text_from_div_def element_children_def get_text_strip_def str_strip_def
                is_space_def)

lemma str_strip_Race_report: "str_strip ''Race report'' = ''Race report''"
  by (simp add: str_strip_def is_space_def)

lemma race_heading_Race_report: "race_re_match (heading_text_from_div (h2_div ''Race report''))"
  by (simp add: heading_text_h2_div str_strip_Race_report race_re_match_def one_line_def)

lemma takeWhile_body:
  assumes "\<forall>n\<in>set body. P n"
    and "case tail of [] \<Rightarrow> True | t # ts \<Rightarrow> \<not> P t"
  shows "takeWhile P (body @ tail) = body"
  using assms by (cases tail) simp_all

lemma find_main_norace: "find_main_content_div norace_soup = Some norace_main"
  by (simp add: find_main_content_div_def norace_soup_def page_of_def get_class_def norace_main_def)

lemma page_summary_no_race:
  assumes "find_main_content_div soup = Some main_div"
    and "extract_race_section_after render main_div
           (snd (snd (extract_opening_paragraphs render main_div))) = ([], 0)"
  shows "race_summary (extract_page_summary pf render soup) =
           str_strip (fst (extract_opening_paragraphs render main_div))"
proof -
  obtain lead k stop where e: "extract_opening_paragraphs render main_div = (lead, k, stop)"
    by (cases "extract_opening_paragraphs render main_div") auto
  have s: "str_strip [] = []" by (simp add: str_strip_def)
  show ?thesis using assms e s
    by (simp add: extract_page_summary_def Let_def)
qed

text \<open>
  C1.  Once the first loop of \<open>extract_race_section_after\<close> has matched a heading of
  level \<open>L\<close> (2 or 3), whatever follows it up to the first heading boundary of level
  \<open>L\<close> is captured in order: if the children after the heading are \<open>body @ tail\<close>,
  no element of \<open>body\<close> is a heading boundary of level \<open>L\<close>, and \<open>tail\<close> is empty or
  begins with one, then the fragment is the renderings of \<open>body\<close> joined by blank
  lines, and the count is the number of paragraphs in \<open>body\<close>.  A heading boundary of
  the other level in \<open>body\<close> is captured like any other element; the head of \<open>tail\<close>
  and everything behind it are left out.
\<close>

theorem race_section_capture:
  assumes "drop (start_index (element_children main_div) start_after)
             (element_children main_div) = pre @ h # body @ tail"
    and "\<forall>n\<in>set pre. \<not> (is_heading_div n \<and> race_re_match (heading_text_from_div n))"
    and "heading_level h = Some L"
    and "race_re_match (heading_text_from_div h)"
    and "\<forall>n\<in>set body. heading_level n \<noteq> Some L"
    and "case tail of [] \<Rightarrow> True | t # ts \<Rightarrow> heading_level t = Some L"
  shows "(L = 2 \<or> L = 3) \<and>
         extract_race_section_after render main_div start_after =
           (str_join blank_line (map render body), length (filter (\<lambda>n. name n = ''p'') body))"
proof -
  have L: "L = 2 \<or> L = 3"
    using heading_level_cases [of h] assms(3) by auto
  have nb: "\<forall>n\<in>set pre. \<not> race_heading n"
    using assms(2) by (simp add: race_heading_def)
  have t: "case tail of [] \<Rightarrow> True | t # ts \<Rightarrow> \<not> heading_level t \<noteq> Some L"
    using assms(6) by (cases tail) simp_all
  have "up_to_level L (body @ tail) = body"
    unfolding up_to_level_def using assms(5) t by (rule takeWhile_body)
  then show ?thesis
    using race_section_char [OF assms(1) nb assms(3) assms(4), of render] L by simp
qed

theorem race_section_capture_witness:
  "extract_race_section_after str_tag sample_main (Some (h2_div ''Background'')) =
     (str_join blank_line
        [str_tag (para ''Start''), str_tag (h3_div ''Lap one''), str_tag (para ''Crash'')], 2)"
proof -
  have s: "start_index (element_children sample_main) (Some (h2_div ''Background'')) = 2"
    by (simp add: sample_children start_index_def)
  have d: "drop (start_index (element_children sample_main) (Some (h2_div ''Background'')))
             (element_children sample_main) =
           [para ''Before''] @ h2_div ''Race report''
             # [para ''Start'', h3_div ''Lap one'', para ''Crash'']
             @ [h2_div ''Reactions'', para ''After'']"
    unfolding s by (simp add: sample_children)
  have p: "\<forall>n\<in>set [para ''Before''].
             \<not> (is_heading_div n \<and> race_re_match (heading_text_from_div n))"
    by simp
  have b: "\<forall>n\<in>set [para ''Start'', h3_div ''Lap one'', para ''Crash'']. heading_level n \<noteq> Some 2"
    by simp
  have t: "case [h2_div ''Reactions'', para ''After''] of [] \<Rightarrow> True
           | t # ts \<Rightarrow> heading_level t = Some 2"
    by simp
  show ?thesis
    using race_section_capture [OF d p heading_level_h2_div race_heading_Race_report b t, of str_tag]
    by simp
qed

text \<open>
  C3.  If no heading boundary at or after the start index has a text that begins
  with ``Race'' in either case, \<open>extract_race_section_after\<close> returns the empty
  fragment and the count zero; and when that happens in \<open>extract_page_summary\<close>, the
  summary of the page is the lead fragment that \<open>extract_opening_paragraphs\<close>
  computed, stripped as the summary's parts always are.
\<close>

theorem no_race_heading_empty:
  assumes "\<forall>n\<in>set (drop (start_index (element_children main_div) start_after)
                          (element_children main_div)).
             heading_level n \<noteq> None \<longrightarrow> \<not> race_prefix (heading_text_from_div n)"
  shows "extract_race_section_after render main_div start_after = ([], 0) \<and>
         (find_main_content_div soup = Some main_div
            \<and> start_after = snd (snd (extract_opening_paragraphs render main_div)) \<longrightarrow>
          race_summary (extract_page_summary pf render soup) =
            str_strip (fst (extract_opening_paragraphs render main_div)))"
proof -
  have "\<forall>n\<in>set (drop (start_index (element_children main_div) start_after)
                        (element_children main_div)). \<not> race_heading n"
  proof
    fix n
    assume n: "n \<in> set (drop (start_index (element_children main_div) start_after)
                               (element_children main_div))"
    show "\<not> race_heading n"
    proof
      assume r: "race_heading n"
      then have "heading_level n \<noteq> None"
        by (simp add: race_heading_def is_heading_div_level)
      with assms n have "\<not> race_prefix (heading_text_from_div n)" by blast
      with r show False by (simp add: race_heading_def race_re_match_def)
    qed
  qed
  then have e: "extract_race_section_after render main_div start_after = ([], 0)"
    by (rule no_race_section)
  show ?thesis
    using e page_summary_no_race [of soup main_div render pf] by auto
qed

lemma norace_children:
  "element_children norace_main =
     [para ''Lead'', h2_div ''Background'', para ''Before'', h2_div ''Embrace'', para ''After'']"
  by (simp add: norace_main_def element_children_def)

lemma norace_lead:
  "extract_opening_paragraphs str_tag norace_main =
     (str_tag (para ''Lead''), 1, Some (h2_div ''Background''))"
  by (simp add: extract_opening_paragraphs_char before_first_h2_def norace_children)

lemma str_strip_Embrace: "str_strip ''Embrace'' = ''Embrace''"
  by (simp add: str_strip_def is_space_def)

theorem no_race_heading_empty_witness:
  "extract_race_section_after str_tag norace_main (Some (h2_div ''Background'')) = ([], 0) \<and>
   race_summary (extract_page_summary unix str_tag norace_soup) = str_strip (str_tag (para ''Lead''))"
proof -
  have s: "start_index (element_children norace_main) (Some (h2_div ''Background'')) = 2"
    by (simp add: norace_children start_index_def)
  have h: "\<forall>n\<in>set (drop (start_index (element_children norace_main) (Some (h2_div ''Background'')))
                          (element_children norace_main)).
             heading_level n \<noteq> None \<longrightarrow> \<not> race_prefix (heading_text_from_div n)"
    unfolding s by (simp add: norace_children heading_text_h2_div str_strip_Embrace)
  show ?thesis
    using no_race_heading_empty [OF h, of str_tag norace_soup unix] find_main_norace norace_lead
    by simp
qed

lemma takeWhile_find_split:
  assumes "\<exists>b\<in>set xs. P b"
  shows "\<exists>b rest. xs = takeWhile (\<lambda>t. \<not> P t) xs @ b # rest \<and> P b \<and> find P xs = Some b"
  using assms by (induction xs) auto

lemma find_append_case:
  "find P (xs @ ys) = (case find P xs of None \<Rightarrow> find P ys | Some x \<Rightarrow> Some x)"
  by (induction xs) simp_all

lemma find_none_takeWhile: "\<forall>t\<in>set xs. \<not> P t \<Longrightarrow> takeWhile (\<lambda>t. \<not> P t) xs = xs \<and> find P xs = None"
  by (induction xs) auto

lemma empty_class_children:
  "element_children empty_class_main = [marker_par, empty_class_par, h2_div ''Race'']"
  by (simp add: empty_class_main_def element_children_def)

lemma heading_level_marker_par [simp]: "heading_level marker_par = None"
  by (simp add: heading_level_def is_heading_div_def marker_par_def)

lemma heading_level_empty_class_par [simp]: "heading_level empty_class_par = None"
  by (simp add: heading_level_def is_heading_div_def empty_class_par_def)

lemma plain_p_marker_par [simp]: "\<not> plain_p marker_par"
  by (simp add: plain_p_def marker_par_def get_class_def)

lemma plain_p_empty_class_par [simp]: "plain_p empty_class_par"
  by (simp add: plain_p_def empty_class_par_def get_class_def)

text \<open>
  C2, as stated, fails: a paragraph before the first level-2 heading boundary whose
  class attribute is present and empty is part of the lead fragment.
\<close>

theorem lead_has_classed_paragraph:
  "fst (extract_opening_paragraphs str_tag empty_class_main) = str_tag empty_class_par
   \<and> str_tag empty_class_par \<noteq> []
   \<and> tag_class empty_class_par \<noteq> None
   \<and> element_children empty_class_main = [marker_par, empty_class_par, h2_div ''Race'']
   \<and> heading_level (h2_div ''Race'') = Some 2"
proof -
  have "str_tag empty_class_par \<noteq> []" "tag_class empty_class_par \<noteq> None"
    by (simp_all add: empty_class_par_def)
  then show ?thesis
    by (simp add: extract_opening_paragraphs_char before_first_h2_def empty_class_children)
qed

text \<open>
  C2, amended.  If an element child of the main region is a level-2 heading boundary,
  \<open>extract_opening_paragraphs\<close> returns the renderings, joined by blank lines and in
  document order, of exactly the paragraphs before the first such boundary whose class
  attribute is absent or holds no token, the number of these paragraphs, and that
  first boundary, which is not part of the fragment.
\<close>

theorem lead_paragraphs_before_first_h2:
  assumes "\<exists>b\<in>set (element_children main_div). heading_level b = Some 2"
  shows "\<exists>b rest.
           element_children main_div = before_first_h2 main_div @ b # rest
           \<and> heading_level b = Some 2
           \<and> extract_opening_paragraphs render main_div =
               (str_join blank_line (map render (filter plain_p (before_first_h2 main_div))),
                length (filter plain_p (before_first_h2 main_div)),
                Some b)"
proof -
  obtain b rest where
    "element_children main_div =
       takeWhile (\<lambda>t. \<not> heading_level t = Some 2) (element_children main_div) @ b # rest"
    and "heading_level b = Some 2"
    and "find (\<lambda>t. heading_level t = Some 2) (element_children main_div) = Some b"
    using takeWhile_find_split [OF assms] by blast
  then show ?thesis
    by (auto simp: extract_opening_paragraphs_char before_first_h2_def)
qed

theorem lead_paragraphs_before_first_h2_witness:
  "extract_opening_paragraphs str_tag sample_main =
     (str_tag (para ''Lead''), 1, Some (h2_div ''Background''))"
proof -
  have h: "\<exists>b\<in>set (element_children sample_main). heading_level b = Some 2"
    by (simp add: sample_children)
  have b: "before_first_h2 sample_main = [para ''Lead'']"
    by (simp add: before_first_h2_def sample_children)
  from lead_paragraphs_before_first_h2 [OF h, of str_tag]
  obtain c rest where
    c: "element_children sample_main = before_first_h2 sample_main @ c # rest"
    and e: "extract_opening_paragraphs str_tag sample_main =
       (str_join blank_line (map str_tag (filter plain_p (before_first_h2 sample_main))),
        length (filter plain_p (before_first_h2 sample_main)), Some c)"
    by blast
  from c have "c = h2_div ''Background''"
    unfolding b by (simp add: sample_children)
  with e show ?thesis unfolding b by simp
qed

text \<open>
  C10.  A paragraph \<open>c\<close> among the children of the main region, with no level-2
  heading boundary before it: when its class attribute is absent or present without a
  token, its rendering is collected between what the children before it and the
  children after it contribute, and it is counted; with any token in its class
  attribute it contributes nothing.
\<close>

theorem empty_class_paragraph_collected:
  assumes "contents main_div = pre @ Element c # post"
    and "\<forall>t\<in>set (element_children_of pre). heading_level t \<noteq> Some 2"
    and "name c = ''p''"
  shows "extract_opening_paragraphs render main_div =
     (case (opening_loop render pre [] 0, opening_loop render post [] 0) of
        ((parts1, count1, stop1), (parts2, count2, stop2)) \<Rightarrow>
          if tag_class c = None \<or> tag_class c = Some []
          then (str_join blank_line (parts1 @ render c # parts2), count1 + 1 + count2, stop2)
          else (str_join blank_line (parts1 @ parts2), count1 + count2, stop2))"
proof -
  let ?nh = "\<lambda>t. heading_level t \<noteq> Some 2"
  let ?h2 = "\<lambda>t. heading_level t = Some 2"
  have c2: "heading_level c \<noteq> Some 2"
    using assms(3) by (simp add: heading_level_2_iff)
  have twpre: "takeWhile ?nh (element_children_of pre) = element_children_of pre"
    using assms(2) by simp
  have fdpre: "find ?h2 (element_children_of pre) = None"
    using assms(2) find_none_takeWhile [of "element_children_of pre" ?h2] by simp
  have tw: "takeWhile ?nh (element_children_of (pre @ Element c # post)) =
            element_children_of pre @ c # takeWhile ?nh (element_children_of post)"
    using assms(2) c2 by (simp add: element_children_of_append)
  have fd: "find ?h2 (element_children_of (pre @ Element c # post)) =
            find ?h2 (element_children_of post)"
    using fdpre c2 by (simp add: element_children_of_append find_append_case)
  have A: "opening_loop render pre [] 0 =
             (map render (filter plain_p (element_children_of pre)),
              length (filter plain_p (element_children_of pre)), None)"
    unfolding opening_loop_char twpre fdpre by simp
  have B: "opening_loop render (pre @ Element c # post) [] 0 =
             (map render (filter plain_p
                (element_children_of pre @ c # takeWhile ?nh (element_children_of post))),
              length (filter plain_p
                (element_children_of pre @ c # takeWhile ?nh (element_children_of post))),
              find ?h2 (element_children_of post))"
    unfolding opening_loop_char tw fd by simp
  have P: "plain_p c \<longleftrightarrow> tag_class c = None \<or> tag_class c = Some []"
    using assms(3) by (simp add: plain_p_iff)
  show ?thesis
    unfolding extract_opening_paragraphs_def assms(1) A B
    by (simp add: opening_loop_char P)
qed

theorem empty_class_paragraph_collected_witness:
  "extract_opening_paragraphs str_tag empty_class_main =
     (str_tag empty_class_par, 1, Some (h2_div ''Race''))
   \<and> tag_class empty_class_par = Some []
   \<and> extract_opening_paragraphs str_tag
        (Tag ''div'' None [] [Element empty_class_par, Element marker_par]) =
     (str_tag empty_class_par, 1, None)"
proof -
  have c1: "contents empty_class_main = [Element marker_par] @ Element empty_class_par # [Element (h2_div ''Race'')]"
    by (simp add: empty_class_main_def)
  have p1: "\<forall>t\<in>set (element_children_of [Element marker_par]). heading_level t \<noteq> Some 2"
    by simp
  have n1: "name empty_class_par = ''p''"
    by (simp add: empty_class_par_def)
  have c2: "contents (Tag ''div'' None [] [Element empty_class_par, Element marker_par]) =
              [Element empty_class_par] @ Element marker_par # []"
    by simp
  have p2: "\<forall>t\<in>set (element_children_of [Element empty_class_par]). heading_level t \<noteq> Some 2"
    by simp
  have n2: "name marker_par = ''p''"
    by (simp add: marker_par_def)
  have l1: "opening_loop str_tag [Element marker_par] [] 0 = ([], 0, None)"
    by (simp add: marker_par_def)
  have l2: "opening_loop str_tag [Element (h2_div ''Race'')] [] 0 = ([], 0, Some (h2_div ''Race''))"
    by (simp add: h2_div_def get_class_def H2_DIV_CLASS_def)
  have l3: "opening_loop str_tag [Element empty_class_par] [] 0 = ([str_tag empty_class_par], 1, None)"
    by (simp add: empty_class_par_def)
  have t: "tag_class empty_class_par = Some []" "tag_class marker_par = Some [''mw-empty-elt'']"
    by (simp_all add: empty_class_par_def marker_par_def)
  have l4: "opening_loop str_tag [] [] 0 = ([], 0, None)"
    by simp
  have r1: "extract_opening_paragraphs str_tag empty_class_main =
              (str_tag empty_class_par, 1, Some (h2_div ''Race''))"
    using empty_class_paragraph_collected [OF c1 p1 n1, of str_tag]
    unfolding l1 l2 by (simp add: t)
  have r2: "extract_opening_paragraphs str_tag
              (Tag ''div'' None [] [Element empty_class_par, Element marker_par]) =
            (str_tag empty_class_par, 1, None)"
    using empty_class_paragraph_collected [OF c2 p2 n2, of str_tag]
    unfolding l3 l4 by (simp add: t)
  show ?thesis
    using r1 r2 t by simp
qed

text \<open>
  C9.  When the selector finds no main content region, \<open>extract_page_summary\<close>
  returns the record with no date and the empty summary, whatever else the document
  holds; in the loop over the years that record is stored for the page's year and the
  loop goes on.
\<close>

theorem no_main_region_record:
  assumes "find_main_content_div soup = None"
  shows "extract_page_summary pf render soup = \<lparr>date = None, race_summary = []\<rparr>
         \<and> (map_of filtered y = Some page_url \<and> fetch page_url = Some soup \<longrightarrow>
            pages_loop pf render fetch filtered (y # ys) results =
              pages_loop pf render fetch filtered ys
                (dict_set results y \<lparr>date = None, race_summary = []\<rparr>))"
  using assms by (simp add: extract_page_summary_def)

lemma find_main_bare: "find_main_content_div bare_soup = None"
  by (simp add: find_main_content_div_def bare_soup_def page_of_def get_class_def para_def)

theorem no_main_region_record_witness:
  "extract_page_summary unix str_tag bare_soup = \<lparr>date = None, race_summary = []\<rparr>
   \<and> extract_iso_date bare_soup = Some ''2015-11-01''
   \<and> pages_loop unix str_tag (\<lambda>url. Some bare_soup) [(2015, ''u'')] [2015] [] =
       [(2015, \<lparr>date = None, race_summary = []\<rparr>)]"
proof -
  have d: "extract_iso_date bare_soup = Some ''2015-11-01''"
    by (simp add: extract_iso_date_def bare_soup_def page_of_def para_def get_attr_def
                  iso_re_match_def is_digit_def hyphen_def)
  show ?thesis
    using no_main_region_record [OF find_main_bare, of unix str_tag "[(2015, ''u'')]" 2015 "''u''"
            "\<lambda>url. Some bare_soup" "[]" "[]"] d
    by simp
qed

lemma dropWhile_hd: "xs \<noteq> [] \<Longrightarrow> \<not> P (hd xs) \<Longrightarrow> dropWhile P xs = xs"
  by (cases xs) simp_all

lemma str_strip_trimmed:
  assumes "trimmed s"
  shows "str_strip s = s"
proof -
  have 1: "dropWhile is_space s = s"
    using assms by (simp add: trimmed_def dropWhile_hd)
  have "rev s \<noteq> []" "\<not> is_space (hd (rev s))"
    using assms by (simp_all add: trimmed_def hd_rev)
  then have 2: "dropWhile is_space (rev s) = rev s"
    by (rule dropWhile_hd)
  show ?thesis by (simp add: str_strip_def 1 2)
qed

lemma str_strip_Nil [simp]: "str_strip [] = []"
  by (simp add: str_strip_def)

lemma blank_line_nonempty: "blank_line \<noteq> []"
  by (simp add: blank_line_def)

lemma str_join_trimmed:
  "xs \<noteq> [] \<Longrightarrow> \<forall>x\<in>set xs. trimmed x \<Longrightarrow> trimmed (str_join sep xs)"
proof (induction sep xs rule: str_join.induct)
  case (1 sep)
  then show ?case by simp
next
  case (2 sep x)
  then show ?case by simp
next
  case (3 sep x y ys)
  then have "trimmed (str_join sep (y # ys))" by simp
  moreover have "trimmed x" using 3 by simp
  ultimately show ?case by (auto simp: trimmed_def)
qed

lemma str_join_rendered:
  assumes "\<forall>t. trimmed (render t)"
  shows "str_strip (str_join blank_line (map render ts)) = str_join blank_line (map render ts)"
proof (cases ts)
  case Nil
  then show ?thesis by simp
next
  case (Cons t ts')
  then have "trimmed (str_join blank_line (map render ts))"
    using assms by (intro str_join_trimmed) auto
  then show ?thesis by (rule str_strip_trimmed)
qed

lemma lead_fragment_strip:
  assumes "\<forall>t. trimmed (render t)"
  shows "str_strip (fst (extract_opening_paragraphs render main_div)) =
         fst (extract_opening_paragraphs render main_div)"
  by (simp add: extract_opening_paragraphs_char str_join_rendered [OF assms])

lemma capture_fragment_strip:
  assumes "\<forall>t. trimmed (render t)"
  shows "str_strip (fst (extract_race_section_after render main_div start_after)) =
         fst (extract_race_section_after render main_div start_after)"
  by (simp add: extract_race_section_after_def Let_def capture_loop_char
                str_join_rendered [OF assms] split: option.splits prod.splits)

lemma str_tag_trimmed: "trimmed (str_tag t)"
  by (cases t) (simp add: trimmed_def is_space_def)

text \<open>
  C4.  The serializer of the parser library renders an element as markup, which
  neither is empty nor begins or ends with whitespace.  Then, for every document, the
  \<open>race_summary\<close> of \<open>extract_page_summary\<close> is the lead fragment and the race-section
  fragment joined by a blank line, an empty one left out, and so the empty string when
  both are empty; with no main content region there is no fragment and the summary is
  empty.
\<close>

theorem race_summary_joins_fragments:
  assumes "\<forall>t. trimmed (render t)"
  shows "race_summary (extract_page_summary pf render soup) =
     (case find_main_content_div soup of
        None \<Rightarrow> []
      | Some main_div \<Rightarrow>
          (case extract_opening_paragraphs render main_div of
             (lead_html, i_count, stop_node) \<Rightarrow>
               (case extract_race_section_after render main_div stop_node of
                  (race_html, j_count) \<Rightarrow>
                    str_join blank_line (filter (\<lambda>part. part \<noteq> []) [lead_html, race_html]))))"
proof (cases "find_main_content_div soup")
  case None
  then show ?thesis by (simp add: extract_page_summary_def)
next
  case (Some main_div)
  obtain lead_html i_count stop_node where
    l: "extract_opening_paragraphs render main_div = (lead_html, i_count, stop_node)"
    by (cases "extract_opening_paragraphs render main_div") auto
  obtain race_html j_count where
    r: "extract_race_section_after render main_div stop_node = (race_html, j_count)"
    by (cases "extract_race_section_after render main_div stop_node") auto
  have sl: "str_strip lead_html = lead_html"
    using lead_fragment_strip [OF assms, of main_div] l by simp
  have sr: "str_strip race_html = race_html"
    using capture_fragment_strip [OF assms, of main_div stop_node] r by simp
  show ?thesis
    using Some l r by (simp add: extract_page_summary_def Let_def sl sr)
qed

lemma find_main_sample: "find_main_content_div sample_soup = Some sample_main"
  by (simp add: find_main_content_div_def sample_soup_def page_of_def get_class_def sample_main_def)

lemma sample_lead:
  "extract_opening_paragraphs str_tag sample_main =
     (str_tag (para ''Lead''), 1, Some (h2_div ''Background''))"
  by (simp add: extract_opening_paragraphs_char before_first_h2_def sample_children)

lemma sample_race:
  "extract_race_section_after str_tag sample_main (Some (h2_div ''Background'')) =
     (str_join blank_line
        [str_tag (para ''Start''), str_tag (h3_div ''Lap one''), str_tag (para ''Crash'')], 2)"
proof -
  have s: "start_index (element_children sample_main) (Some (h2_div ''Background'')) = 2"
    by (simp add: sample_children start_index_def)
  have d: "drop (start_index (element_children sample_main) (Some (h2_div ''Background'')))
             (element_children sample_main) =
           [para ''Before''] @ h2_div ''Race report''
             # [para ''Start'', h3_div ''Lap one'', para ''Crash'', h2_div ''Reactions'', para ''After'']"
    unfolding s by (simp add: sample_children)
  have p: "\<forall>n\<in>set [para ''Before'']. \<not> race_heading n"
    by (simp add: race_heading_def)
  show ?thesis
    using race_section_char [OF d p heading_level_h2_div race_heading_Race_report, of str_tag]
    by (simp add: up_to_level_def)
qed

theorem race_summary_joins_fragments_witness:
  "race_summary (extract_page_summary unix str_tag sample_soup) =
     str_join blank_line
       [str_tag (para ''Lead''), str_tag (para ''Start''), str_tag (h3_div ''Lap one''),
        str_tag (para ''Crash'')]
   \<and> race_summary (extract_page_summary unix str_tag norace_soup) = str_tag (para ''Lead'')
   \<and> race_summary (extract_page_summary unix str_tag bare_soup) = []"
proof -
  have t: "\<forall>t. trimmed (str_tag t)"
    by (simp add: str_tag_trimmed)
  have n: "extract_race_section_after str_tag norace_main (Some (h2_div ''Background'')) = ([], 0)"
  proof (rule no_race_section)
    have s: "start_index (element_children norace_main) (Some (h2_div ''Background'')) = 2"
      by (simp add: norace_children start_index_def)
    show "\<forall>n\<in>set (drop (start_index (element_children norace_main) (Some (h2_div ''Background'')))
                          (element_children norace_main)). \<not> race_heading n"
      unfolding s
      by (simp add: norace_children race_heading_def heading_text_h2_div str_strip_Embrace
                    race_re_match_def)
  qed
  have ne: "str_tag (para ''Lead'') \<noteq> []" "str_tag (para ''Start'') \<noteq> []"
    by (simp_all add: para_def)
  show ?thesis
    using race_summary_joins_fragments [OF t, of unix sample_soup]
          race_summary_joins_fragments [OF t, of unix norace_soup]
          race_summary_joins_fragments [OF t, of unix bare_soup]
    by (simp add: find_main_sample find_main_norace find_main_bare sample_lead sample_race
                  norace_lead n ne)
qed

lemma iso_re_match_nonempty: "iso_re_match s \<Longrightarrow> s \<noteq> []"
  by (auto simp: iso_re_match_def)

lemma find_filter: "find P (filter Q xs) = find (\<lambda>x. Q x \<and> P x) xs"
  by (induction xs) simp_all

lemma find_cong_set: "(\<And>x. x \<in> set xs \<Longrightarrow> P x = Q x) \<Longrightarrow> find P xs = find Q xs"
  by (induction xs) simp_all

lemma first_datetime_char:
  "first_datetime ts =
     (case find (date_attr ''datetime'') ts of None \<Rightarrow> None | Some t \<Rightarrow> get_attr t ''datetime'')"
  by (induction ts) (auto simp: date_attr_def iso_re_match_nonempty split: option.splits)

lemma first_title_char:
  "first_title ts =
     (case find (date_attr ''title'') ts of None \<Rightarrow> None | Some t \<Rightarrow> get_attr t ''title'')"
proof (induction ts)
  case Nil
  show ?case by simp
next
  case (Cons t ts)
  have "\<not> iso_re_match []" using iso_re_match_nonempty by blast
  then show ?case using Cons
    by (auto simp: date_attr_def Let_def split: option.splits)
qed

lemma find_title_filter:
  "find (date_attr ''title'') (filter (\<lambda>t. get_attr t ''title'' \<noteq> None) ts) =
   find (date_attr ''title'') ts"
  unfolding find_filter
  by (rule find_cong_set) (auto simp: date_attr_def split: option.splits)

lemma extract_iso_date_char:
  "extract_iso_date soup =
     (case find (\<lambda>t. ((name t = ''time'' \<or> name t = ''span'') \<and> tag_class t \<noteq> None)
                      \<and> date_attr ''datetime'' t) (descendant_tags soup) of
        Some t \<Rightarrow> get_attr t ''datetime''
      | None \<Rightarrow>
          (case find (date_attr ''title'') (descendant_tags soup) of
             Some t \<Rightarrow> get_attr t ''title''
           | None \<Rightarrow> None))"
proof -
  let ?P = "\<lambda>t. ((name t = ''time'' \<or> name t = ''span'') \<and> tag_class t \<noteq> None)
                  \<and> date_attr ''datetime'' t"
  show ?thesis
  proof (cases "find ?P (descendant_tags soup)")
    case None
    then have "first_datetime
                 (filter (\<lambda>t. (name t = ''time'' \<or> name t = ''span'') \<and> tag_class t \<noteq> None)
                         (descendant_tags soup)) = None"
      by (simp add: first_datetime_char find_filter)
    then have "extract_iso_date soup =
                 first_title (filter (\<lambda>t. get_attr t ''title'' \<noteq> None) (descendant_tags soup))"
      by (simp add: extract_iso_date_def)
    also have "\<dots> = (case find (date_attr ''title'') (descendant_tags soup) of
                         None \<Rightarrow> None | Some t \<Rightarrow> get_attr t ''title'')"
      unfolding first_title_char find_title_filter ..
    finally show ?thesis using None by (simp split: option.splits)
  next
    case (Some t)
    then have "date_attr ''datetime'' t" by (auto simp: find_Some_iff)
    then obtain v where "get_attr t ''datetime'' = Some v"
      by (auto simp: date_attr_def split: option.splits)
    then show ?thesis using Some
      by (simp add: extract_iso_date_def first_datetime_char find_filter)
  qed
qed

lemma extract_iso_date_nonempty: "extract_iso_date soup = Some i \<Longrightarrow> iso_re_match i"
  by (auto simp: extract_iso_date_char date_attr_def find_Some_iff split: option.splits)


text \<open>
  A \<open>time\<close> element with a matching \<open>datetime\<close> and no class attribute is passed over
  as well, the form the source's comment names as the common one: the filter
  \<open>attrs=True\<close> of the first pass asks for a class attribute.
\<close>

lemma classless_time_not_found:
  "extract_iso_date classless_time_soup = None"
  by (simp add: extract_iso_date_def classless_time_soup_def page_of_def get_attr_def
                iso_re_match_def)



lemma digit_char_nonzero: "1 \<le> n \<Longrightarrow> n < 10 \<Longrightarrow> digit_char n \<noteq> CHR ''0''"
proof -
  assume "1 \<le> n" "n < 10"
  then have "n \<in> {1, 2, 3, 4, 5, 6, 7, 8, 9}" by auto
  then show ?thesis by (auto simp: digit_char_def)
qed

lemma decimal_nonempty: "decimal n \<noteq> []"
  by (subst decimal.simps) simp

lemma decimal_no_leading_zero: "1 \<le> n \<Longrightarrow> hd (decimal n) \<noteq> CHR ''0''"
proof (induction n rule: decimal.induct)
  case (1 n)
  show ?case
  proof (cases "n < 10")
    case True
    then show ?thesis using 1(2) by (subst decimal.simps) (simp add: digit_char_nonzero)
  next
    case False
    then have "1 \<le> n div 10" by simp
    with 1(1) False have "hd (decimal (n div 10)) \<noteq> CHR ''0''" by simp
    then show ?thesis using False
      by (subst decimal.simps) (simp add: decimal_nonempty)
  qed
qed

lemma strptime_ymd_valid:
  "strptime_ymd s = Some d \<Longrightarrow>
   1 \<le> dt_year d \<and> 1 \<le> dt_month d \<and> dt_month d \<le> 12 \<and> 1 \<le> dt_day d \<and> dt_day d \<le> 31"
  by (auto simp: strptime_ymd_def Let_def days_in_month_def split: if_splits)

lemma pretty_date_of_char:
  "pretty_date_of pf i =
     (case strptime_ymd i of
        None \<Rightarrow> None
      | Some d \<Rightarrow>
          Some (month_name (dt_month d) @ '' ''
                @ (if knows_dash_d pf then decimal (dt_day d) else zero_pad 2 (decimal (dt_day d)))
                @ '', '' @ format_year pf (dt_year d)))"
  by (simp add: pretty_date_of_def strftime_dash_d_def strftime_d_def split: option.splits)

text \<open>
  C6, as stated, fails: where the C library has no \<open>%-d\<close>, the fallback format pads
  the day, and the date of 2015-11-01 has a leading zero.
\<close>

theorem fallback_pads_day:
  "date (extract_page_summary \<lparr>knows_dash_d = False, pads_year = True\<rparr> str_tag sample_soup)
     = Some ''November 01, 2015''
   \<and> extract_iso_date sample_soup = Some ''2015-11-01''"
proof -
  have i: "extract_iso_date sample_soup = Some ''2015-11-01''"
    by (simp add: extract_iso_date_def sample_soup_def page_of_def get_attr_def
                  iso_re_match_def is_digit_def hyphen_def)
  have s: "strptime_ymd ''2015-11-01'' = Some \<lparr>dt_year = 2015, dt_month = 11, dt_day = 1\<rparr>"
    by (simp add: strptime_ymd_def is_digit_def hyphen_def int_of_digits_def digit_val_def
                  days_in_month_def)
  have y: "decimal 2015 = ''2015''" "decimal 1 = ''1''" "decimal (Suc 0) = ''1''"
    by code_simp+
  have p: "pretty_date_of \<lparr>knows_dash_d = False, pads_year = True\<rparr> ''2015-11-01''
             = Some ''November 01, 2015''"
    by (simp add: pretty_date_of_char s month_name_def zero_pad_def format_year_def y)
  show ?thesis
    using i p find_main_sample
    by (simp add: extract_page_summary_def Let_def split: prod.splits)
qed

text \<open>
  C6, amended.  On a page with a main content region, the date field is null when no
  ISO date is found or its conversion fails (the string has a line feed at its end, or
  is no date of the calendar); otherwise it is the English name of the month, a space,
  the day, a comma and a space, and the year.  The day is written without a leading
  zero where the C library knows \<open>%-d\<close>, and with two digits under the fallback format
  where it does not.  No case raises.
\<close>

theorem date_long_form:
  assumes "find_main_content_div soup = Some main_div"
  shows "date (extract_page_summary pf render soup) =
     (case extract_iso_date soup of
        None \<Rightarrow> None
      | Some i \<Rightarrow>
          (case strptime_ymd i of
             None \<Rightarrow> None
           | Some d \<Rightarrow>
               Some (month_name (dt_month d) @ '' ''
                     @ (if knows_dash_d pf then decimal (dt_day d)
                        else zero_pad 2 (decimal (dt_day d)))
                     @ '', '' @ format_year pf (dt_year d))))
     \<and> (\<forall>i d. extract_iso_date soup = Some i \<and> strptime_ymd i = Some d \<longrightarrow>
           1 \<le> dt_month d \<and> dt_month d \<le> 12 \<and> 1 \<le> dt_day d \<and> dt_day d \<le> 31
           \<and> hd (decimal (dt_day d)) \<noteq> CHR ''0'')"
proof -
  have "date (extract_page_summary pf render soup) =
          (case extract_iso_date soup of None \<Rightarrow> None | Some i \<Rightarrow> pretty_date_of pf i)"
    using assms extract_iso_date_nonempty [of soup] iso_re_match_nonempty
    by (auto simp: extract_page_summary_def Let_def split: prod.splits option.splits)
  then have A: "date (extract_page_summary pf render soup) =
     (case extract_iso_date soup of
        None \<Rightarrow> None
      | Some i \<Rightarrow>
          (case strptime_ymd i of
             None \<Rightarrow> None
           | Some d \<Rightarrow>
               Some (month_name (dt_month d) @ '' ''
                     @ (if knows_dash_d pf then decimal (dt_day d)
                        else zero_pad 2 (decimal (dt_day d)))
                     @ '', '' @ format_year pf (dt_year d))))"
    by (simp add: pretty_date_of_char split: option.splits)
  have B: "\<forall>i d. extract_iso_date soup = Some i \<and> strptime_ymd i = Some d \<longrightarrow>
           1 \<le> dt_month d \<and> dt_month d \<le> 12 \<and> 1 \<le> dt_day d \<and> dt_day d \<le> 31
           \<and> hd (decimal (dt_day d)) \<noteq> CHR ''0''"
  proof (intro allI impI)
    fix i d
    assume "extract_iso_date soup = Some i \<and> strptime_ymd i = Some d"
    then have v: "1 \<le> dt_month d \<and> dt_month d \<le> 12 \<and> 1 \<le> dt_day d \<and> dt_day d \<le> 31"
      using strptime_ymd_valid [of i d] by simp
    then have "hd (decimal (dt_day d)) \<noteq> CHR ''0''"
      using decimal_no_leading_zero by blast
    with v show "1 \<le> dt_month d \<and> dt_month d \<le> 12 \<and> 1 \<le> dt_day d \<and> dt_day d \<le> 31
           \<and> hd (decimal (dt_day d)) \<noteq> CHR ''0''"
      by simp
  qed
  from A B show ?thesis by (rule conjI)
qed

theorem date_long_form_witness:
  "date (extract_page_summary unix str_tag sample_soup) = Some ''November 1, 2015''
   \<and> date (extract_page_summary windows str_tag sample_soup) = Some ''November 01, 2015''
   \<and> date (extract_page_summary unix str_tag norace_soup) = None"
proof -
  have i: "extract_iso_date sample_soup = Some ''2015-11-01''"
    by (simp add: extract_iso_date_def sample_soup_def page_of_def get_attr_def
                  iso_re_match_def is_digit_def hyphen_def)
  have n: "extract_iso_date norace_soup = None"
    by (simp add: extract_iso_date_def norace_soup_def page_of_def get_attr_def norace_main_def
                  para_def h2_div_def)
  have s: "strptime_ymd ''2015-11-01'' = Some \<lparr>dt_year = 2015, dt_month = 11, dt_day = 1\<rparr>"
    by (simp add: strptime_ymd_def is_digit_def hyphen_def int_of_digits_def digit_val_def
                  days_in_month_def)
  have y: "decimal 2015 = ''2015''" "decimal 1 = ''1''" "decimal (Suc 0) = ''1''"
    by code_simp+
  show ?thesis
    using date_long_form [OF find_main_sample, of unix str_tag]
          date_long_form [OF find_main_sample, of windows str_tag]
          date_long_form [OF find_main_norace, of unix str_tag]
    by (simp add: i n s y month_name_def zero_pad_def format_year_def unix_def windows_def)
qed

lemma cat_links:
  "parse_year_links_from_category cat_soup =
     [(2014, ''https://en.wikipedia.org/wiki/2014_Mexican_Grand_Prix''),
      (2015, ''https://en.wikipedia.org/wiki/2015_Mexican_Grand_Prix''),
      (2016, ''https://en.wikipedia.org/wiki/2016_Mexican_Grand_Prix'')]"
  by code_simp

lemma cat_anchors:
  "select_wiki_anchors cat_soup =
     [anchor ''/wiki/2015_Mexican_Grand_Prix'' ''2015 Mexican Grand Prix'',
      anchor ''/wiki/2014_Mexican_Grand_Prix'' ''2014 Mexican Grand Prix'',
      anchor ''/wiki/2014_Grand_Prix_(Mexico)'' ''2014 Mexican GP'',
      anchor ''/wiki/Talk:2013_Mexican_Grand_Prix'' ''Talk:2013 Mexican Grand Prix'',
      anchor ''/wiki/2016_Mexican_Grand_Prix'' ''2016 Mexican Grand Prix'']"
  by code_simp

lemma cat_anchor_years:
  "map anchor_year (select_wiki_anchors cat_soup) = [Some 2015, Some 2014, Some 2014, None, Some 2016]"
  by code_simp


section \<open>Properties of the dictionaries\<close>

lemma setdefault_keys: "set (map fst (setdefault d k v)) = insert k (set (map fst d))"
  by (auto simp: setdefault_def)

lemma setdefault_distinct: "distinct (map fst d) \<Longrightarrow> distinct (map fst (setdefault d k v))"
  by (auto simp: setdefault_def)

lemma setdefault_map_of:
  "map_of (setdefault d k v) y = (case map_of d y of Some u \<Rightarrow> Some u | None \<Rightarrow> if y = k then Some v else None)"
proof (cases "k \<in> set (map fst d)")
  case True
  then obtain u where "map_of d k = Some u"
    by (metis map_of_eq_None_iff not_Some_eq set_map)
  then show ?thesis using True by (auto simp: setdefault_def split: option.splits)
next
  case False
  then have "map_of d k = None" by (simp add: map_of_eq_None_iff)
  then show ?thesis using False
    by (auto simp: setdefault_def map_add_def split: option.splits)
qed

lemma links_loop_distinct:
  "distinct (map fst links) \<Longrightarrow> distinct (map fst (links_loop anchors links))"
  by (induction anchors arbitrary: links) (auto simp: setdefault_distinct split: option.splits)

lemma links_loop_map_of:
  "map_of (links_loop anchors links) y =
     (case map_of links y of
        Some u \<Rightarrow> Some u
      | None \<Rightarrow> map_option (\<lambda>a. WIKI_BASE @ href_of a) (find (\<lambda>a. anchor_year a = Some y) anchors))"
proof (induction anchors arbitrary: links)
  case Nil
  show ?case by (simp split: option.splits)
next
  case (Cons a anchors)
  show ?case
  proof (cases "anchor_year a")
    case None
    then show ?thesis using Cons [of links] by (simp split: option.splits)
  next
    case (Some year)
    then show ?thesis
      using Cons [of "setdefault links year (WIKI_BASE @ href_of a)"]
      by (auto simp: setdefault_map_of split: option.splits)
  qed
qed

lemma map_filter_total:
  "\<forall>x\<in>set xs. f x \<noteq> None \<Longrightarrow> List.map_filter f xs = map (\<lambda>x. the (f x)) xs"
  by (induction xs) auto

lemma sorted_by_key_eq:
  "sorted_by_key d = map (\<lambda>k. (k, the (map_of d k))) (sort (map fst d))"
proof -
  have "\<forall>k\<in>set (sort (map fst d)). map_option (Pair k) (map_of d k) \<noteq> None"
    by (auto simp: map_of_eq_None_iff)
  then have "sorted_by_key d =
               map (\<lambda>k. the (map_option (Pair k) (map_of d k))) (sort (map fst d))"
    unfolding sorted_by_key_def by (rule map_filter_total)
  also have "\<dots> = map (\<lambda>k. (k, the (map_of d k))) (sort (map fst d))"
    by (rule map_cong) (auto simp: map_of_eq_None_iff option.map_sel)
  finally show ?thesis .
qed

lemma sorted_by_key_keys: "map fst (sorted_by_key d) = sort (map fst d)"
  by (simp add: sorted_by_key_eq comp_def)

lemma sorted_by_key_map_of: "map_of (sorted_by_key d) y = map_of d y"
proof (cases "y \<in> set (map fst d)")
  case True
  then obtain u where u: "map_of d y = Some u"
    by (metis map_of_eq_None_iff not_Some_eq set_map)
  have "map_of (map (\<lambda>k. (k, the (map_of d k))) (sort (map fst d))) y = Some (the (map_of d y))"
    using True by (simp add: map_of_map_restrict)
  then show ?thesis using u by (simp add: sorted_by_key_eq)
next
  case False
  then have "map_of d y = None" by (simp add: map_of_eq_None_iff)
  moreover have "set (map fst (sorted_by_key d)) = set (map fst d)"
    unfolding sorted_by_key_keys by simp
  then have "y \<notin> fst ` set (sorted_by_key d)"
    using False by simp
  then have "map_of (sorted_by_key d) y = None"
    by (simp add: map_of_eq_None_iff)
  ultimately show ?thesis by simp
qed

lemma parse_year_links_distinct: "distinct (map fst (parse_year_links_from_category soup))"
  using links_loop_distinct [of "[]" "select_wiki_anchors soup"]
  by (simp add: parse_year_links_from_category_def sorted_by_key_keys)

text \<open>
  C7.  The mapping that \<open>parse_year_links_from_category\<close> returns has its years in
  ascending order and no year twice, and the URL stored under a year is the site's
  scheme and host followed by the relative path of the first anchor, in document order,
  that the loop accepts for that year; a year that no anchor is accepted for has no
  entry.
\<close>

theorem year_links_first_wins_ascending:
  "sorted (map fst (parse_year_links_from_category soup))
   \<and> distinct (map fst (parse_year_links_from_category soup))
   \<and> map_of (parse_year_links_from_category soup) y =
       map_option (\<lambda>a. ''https://en.wikipedia.org'' @ href_of a)
         (find (\<lambda>a. anchor_year a = Some y) (select_wiki_anchors soup))"
proof -
  have "map_of (parse_year_links_from_category soup) y =
          map_option (\<lambda>a. WIKI_BASE @ href_of a)
            (find (\<lambda>a. anchor_year a = Some y) (select_wiki_anchors soup))"
    by (simp add: parse_year_links_from_category_def sorted_by_key_map_of links_loop_map_of)
  then show ?thesis
    using parse_year_links_distinct [of soup]
    by (simp add: parse_year_links_from_category_def sorted_by_key_keys WIKI_BASE_def)
qed

theorem year_links_first_wins_ascending_witness:
  "map fst (parse_year_links_from_category cat_soup) = [2014, 2015, 2016]
   \<and> map_of (parse_year_links_from_category cat_soup) 2014 =
       Some ''https://en.wikipedia.org/wiki/2014_Mexican_Grand_Prix''
   \<and> map_of (parse_year_links_from_category cat_soup) 2013 = None"
proof -
  have f: "find (\<lambda>a. anchor_year a = Some 2014) (select_wiki_anchors cat_soup) =
             Some (anchor ''/wiki/2014_Mexican_Grand_Prix'' ''2014 Mexican Grand Prix'')"
          "find (\<lambda>a. anchor_year a = Some 2013) (select_wiki_anchors cat_soup) = None"
    by code_simp+
  have h: "href_of (anchor ''/wiki/2014_Mexican_Grand_Prix'' ''2014 Mexican Grand Prix'') =
             ''/wiki/2014_Mexican_Grand_Prix''"
    by (simp add: href_of_def anchor_def get_attr_def)
  show ?thesis
    using year_links_first_wins_ascending [of cat_soup 2014]
          year_links_first_wins_ascending [of cat_soup 2013]
    by (simp add: f h cat_links)
qed

section \<open>Properties of the orchestration\<close>

lemma dict_set_keys: "fst ` set (dict_set d k v) = insert k (fst ` set d)"
  by (induction d k v rule: dict_set.induct) auto

lemma dict_set_new: "k \<notin> set (map fst d) \<Longrightarrow> dict_set d k v = d @ [(k, v)]"
  by (induction d k v rule: dict_set.induct) auto

lemma year_filter_loop_char:
  "distinct (map fst filtered @ map fst year_links) \<Longrightarrow>
   year_filter_loop now_year excl year_links filtered =
     filtered @ filter (\<lambda>(y, url). keeps_year now_year excl y) year_links"
proof (induction now_year excl year_links filtered rule: year_filter_loop.induct)
  case (1 now_year excl filtered)
  show ?case by simp
next
  case (2 now_year excl y url rest filtered)
  show ?case
  proof (cases "keeps_year now_year excl y")
    case True
    then have c: "\<not> y > now_year" "\<not> (excl \<and> y = now_year)"
      by (auto simp: keeps_year_def)
    have new: "dict_set filtered y url = filtered @ [(y, url)]"
      using "2.prems" by (intro dict_set_new) auto
    have d: "distinct (map fst (dict_set filtered y url) @ map fst rest)"
      using "2.prems" unfolding new by auto
    have step: "year_filter_loop now_year excl ((y, url) # rest) filtered =
                year_filter_loop now_year excl rest (dict_set filtered y url)"
      by (subst year_filter_loop.simps(2), subst if_not_P [OF c(1)], subst if_not_P [OF c(2)],
          rule refl)
    have ih: "year_filter_loop now_year excl rest (filtered @ [(y, url)]) =
                (filtered @ [(y, url)]) @ filter (\<lambda>(y, url). keeps_year now_year excl y) rest"
      using "2.IH"(3) [OF c d] unfolding new .
    show ?thesis
      unfolding step new ih using True by simp
  next
    case False
    have d: "distinct (map fst filtered @ map fst rest)"
      using "2.prems" by auto
    show ?thesis
    proof (cases "y > now_year")
      case True
      have step: "year_filter_loop now_year excl ((y, url) # rest) filtered =
                  year_filter_loop now_year excl rest filtered"
        by (subst year_filter_loop.simps(2), subst if_P [OF True], rule refl)
      show ?thesis unfolding step "2.IH"(1) [OF True d] using False by simp
    next
      case ny: False
      then have e: "excl \<and> y = now_year"
        using False by (auto simp: keeps_year_def)
      have step: "year_filter_loop now_year excl ((y, url) # rest) filtered =
                  year_filter_loop now_year excl rest filtered"
        by (subst year_filter_loop.simps(2), subst if_not_P [OF ny], subst if_P [OF e], rule refl)
      show ?thesis unfolding step "2.IH"(2) [OF ny e d] using False by simp
    qed
  qed
qed

lemma pages_loop_keys:
  "fst ` set (pages_loop pf render fetch filtered ys results) =
     fst ` set results \<union> {y \<in> set ys. fetched fetch filtered y}"
proof (induction ys arbitrary: results)
  case Nil
  show ?case by simp
next
  case (Cons y ys)
  show ?case
  proof (cases "map_of filtered y")
    case None
    then have f: "\<not> fetched fetch filtered y" by (simp add: fetched_def)
    have step: "pages_loop pf render fetch filtered (y # ys) results =
          pages_loop pf render fetch filtered ys results"
      using None by simp
    show ?thesis unfolding step using f by (auto simp: Cons)
  next
    case (Some page_url)
    show ?thesis
    proof (cases "fetch page_url")
      case None
      then have f: "\<not> fetched fetch filtered y" using Some by (simp add: fetched_def)
      have step: "pages_loop pf render fetch filtered (y # ys) results =
            pages_loop pf render fetch filtered ys results"
        using Some None by simp
      show ?thesis unfolding step using f by (auto simp: Cons)
    next
      case (Some page)
      then have f: "fetched fetch filtered y"
        using \<open>map_of filtered y = Some page_url\<close> by (simp add: fetched_def)
      have step: "pages_loop pf render fetch filtered (y # ys) results =
            pages_loop pf render fetch filtered ys
              (dict_set results y (extract_page_summary pf render page))"
        using Some \<open>map_of filtered y = Some page_url\<close> by simp
      show ?thesis unfolding step using f by (auto simp: Cons dict_set_keys)
    qed
  qed
qed

lemma map_of_filter_keys:
  "map_of (filter (\<lambda>(y, url). P y) xs) y = (if P y then map_of xs y else None)"
  by (induction xs) auto


lemma main_remote_keys:
  assumes "local_html a = None \<or> local_html a = Some []"
    and "fetch (category_url a) = Some cat"
  shows "\<exists>results. main pf render fetch read_file now_year a = Written results \<and>
     fst ` set results =
       {y. \<exists>url. map_of (parse_year_links_from_category cat) y = Some url
                 \<and> (only_year a = None \<or> only_year a = Some y)
                 \<and> keeps_year now_year (exclude_current_year a) y
                 \<and> fetch url \<noteq> None}"
proof -
  let ?discovered = "parse_year_links_from_category cat"
  let ?year_links = "case only_year a of None \<Rightarrow> ?discovered
                     | Some oy \<Rightarrow> filter (\<lambda>(y, url). y = oy) ?discovered"
  let ?filtered = "year_filter_loop now_year (exclude_current_year a) ?year_links []"
  have dd: "distinct (map fst ?discovered)"
    by (rule parse_year_links_distinct)
  have dy: "distinct (map fst ?year_links)"
    using dd by (simp add: distinct_map_filter split: option.splits)
  have my: "\<And>y. map_of ?year_links y =
              (if only_year a = None \<or> only_year a = Some y then map_of ?discovered y else None)"
    by (auto simp: map_of_filter_keys split: option.splits)
  have f: "?filtered = filter (\<lambda>(y, url). keeps_year now_year (exclude_current_year a) y) ?year_links"
    using year_filter_loop_char [of "[]" ?year_links now_year "exclude_current_year a"] dy
    by simp
  have mf: "\<And>y. map_of ?filtered y =
              (if keeps_year now_year (exclude_current_year a) y then map_of ?year_links y else None)"
    unfolding f by (rule map_of_filter_keys)
  have fk: "\<And>y. fetched fetch ?filtered y \<Longrightarrow> y \<in> set (sort (map fst ?filtered))"
  proof -
    fix y assume "fetched fetch ?filtered y"
    then have "map_of ?filtered y \<noteq> None"
      by (auto simp: fetched_def split: option.splits)
    then have "y \<in> fst ` set ?filtered"
      by (simp add: map_of_eq_None_iff)
    then show "y \<in> set (sort (map fst ?filtered))" by simp
  qed
  have m: "main pf render fetch read_file now_year a =
             Written (pages_loop pf render fetch ?filtered (sort (map fst ?filtered)) [])"
    using assms by (auto simp: main_def Let_def)
  have "fst ` set (pages_loop pf render fetch ?filtered (sort (map fst ?filtered)) []) =
          {y. fetched fetch ?filtered y}"
    using fk by (auto simp: pages_loop_keys)
  also have "\<dots> = {y. \<exists>url. map_of ?discovered y = Some url
                 \<and> (only_year a = None \<or> only_year a = Some y)
                 \<and> keeps_year now_year (exclude_current_year a) y
                 \<and> fetch url \<noteq> None}"
    unfolding fetched_def mf my by (auto split: option.splits if_splits)
  finally show ?thesis using m by blast
qed


text \<open>
  C8, as stated, fails: the current year 2015 is discovered and the flag is not set,
  yet a run restricted to 2014 writes 2014 alone.
\<close>

theorem current_year_dropped_by_only_year:
  "written_years (main unix str_tag sample_fetch sample_read_file 2015 only_2014_args) = [2014]
   \<and> map fst (parse_year_links_from_category cat_soup) = [2014, 2015, 2016]
   \<and> sample_fetch (category_url only_2014_args) = Some cat_soup
   \<and> exclude_current_year only_2014_args = False"
proof -
  have 1: "written_years (main unix str_tag sample_fetch sample_read_file 2015 only_2014_args)
             = [2014]"
    by code_simp
  have 2: "sample_fetch (category_url only_2014_args) = Some cat_soup"
    by (simp add: sample_fetch_def only_2014_args_def)
  have 3: "exclude_current_year only_2014_args = False"
    by (simp add: only_2014_args_def)
  show ?thesis using 1 2 3 by (simp add: cat_links)
qed

text \<open>
  C8, amended.  In a run over the category page, a year above the current year is
  never in the written dictionary, and with the exclude-current-year flag the current
  year is not in it either.  Without the flag the current year is in it exactly when
  it was discovered, no single-year filter for another year is set, and the fetch of
  its page succeeds.
\<close>

theorem year_filter_output:
  assumes "local_html a = None \<or> local_html a = Some []"
    and "fetch (category_url a) = Some cat"
  shows "\<exists>results. main pf render fetch read_file now_year a = Written results
     \<and> (\<forall>y. y > now_year \<longrightarrow> y \<notin> fst ` set results)
     \<and> (exclude_current_year a \<longrightarrow> now_year \<notin> fst ` set results)
     \<and> (\<not> exclude_current_year a \<longrightarrow>
          (now_year \<in> fst ` set results \<longleftrightarrow>
             (\<exists>url. map_of (parse_year_links_from_category cat) now_year = Some url
                    \<and> (only_year a = None \<or> only_year a = Some now_year)
                    \<and> fetch url \<noteq> None)))"
proof -
  obtain results where
    m: "main pf render fetch read_file now_year a = Written results"
    and k: "fst ` set results =
       {y. \<exists>url. map_of (parse_year_links_from_category cat) y = Some url
                 \<and> (only_year a = None \<or> only_year a = Some y)
                 \<and> keeps_year now_year (exclude_current_year a) y
                 \<and> fetch url \<noteq> None}"
    using main_remote_keys [where fetch = fetch and a = a and cat = cat, OF assms] by blast
  have 1: "\<forall>y. y > now_year \<longrightarrow> y \<notin> fst ` set results"
    unfolding k by (auto simp: keeps_year_def)
  have 2: "exclude_current_year a \<longrightarrow> now_year \<notin> fst ` set results"
    unfolding k by (auto simp: keeps_year_def)
  have 3: "\<not> exclude_current_year a \<longrightarrow>
          (now_year \<in> fst ` set results \<longleftrightarrow>
             (\<exists>url. map_of (parse_year_links_from_category cat) now_year = Some url
                    \<and> (only_year a = None \<or> only_year a = Some now_year)
                    \<and> fetch url \<noteq> None))"
    unfolding k by (auto simp: keeps_year_def)
  from m 1 2 3 show ?thesis by blast
qed

theorem year_filter_output_witness:
  "\<exists>results. main unix str_tag sample_fetch sample_read_file 2015 sample_args = Written results
     \<and> 2016 \<notin> fst ` set results \<and> 2015 \<in> fst ` set results"
proof -
  have l: "local_html sample_args = None \<or> local_html sample_args = Some []"
    by (simp add: sample_args_def)
  have c: "sample_fetch (category_url sample_args) = Some cat_soup"
    by (simp add: sample_fetch_def sample_args_def)
  have e: "\<not> exclude_current_year sample_args" "only_year sample_args = None"
    by (simp_all add: sample_args_def)
  have u: "map_of (parse_year_links_from_category cat_soup) 2015 =
             Some ''https://en.wikipedia.org/wiki/2015_Mexican_Grand_Prix''"
    by (simp add: cat_links)
  have f: "sample_fetch ''https://en.wikipedia.org/wiki/2015_Mexican_Grand_Prix'' \<noteq> None"
    by (simp add: sample_fetch_def)
  from year_filter_output [where fetch = sample_fetch and a = sample_args and cat = cat_soup
         and pf = unix and render = str_tag and read_file = sample_read_file and now_year = 2015,
         OF l c]
  obtain results where
    m: "main unix str_tag sample_fetch sample_read_file 2015 sample_args = Written results"
    and a: "\<forall>y. y > 2015 \<longrightarrow> y \<notin> fst ` set results"
    and p: "\<not> exclude_current_year sample_args \<longrightarrow>
          (2015 \<in> fst ` set results \<longleftrightarrow>
             (\<exists>url. map_of (parse_year_links_from_category cat_soup) 2015 = Some url
                    \<and> (only_year sample_args = None \<or> only_year sample_args = Some 2015)
                    \<and> sample_fetch url \<noteq> None))"
    by blast
  from a have "2016 \<notin> fst ` set results" by simp
  moreover from p e u f have "2015 \<in> fst ` set results" by blast
  ultimately show ?thesis using m by blast
qed

end
